theory Spec2Isabelle
  imports Main "HOL-Library.Sublist"
begin

section \<open>Python strings\<close>

text \<open>
  A Python \<open>str\<close> is modelled as a \<open>string\<close> (a list of characters). Truthiness of a
  string (\<open>if s:\<close>) is \<open>s \<noteq> []\<close>.
\<close>

text \<open>\<open>s.rstrip(c)\<close> and \<open>s.lstrip(c)\<close> for a one-character argument.\<close>

definition rstrip :: "char \<Rightarrow> string \<Rightarrow> string" where
  "rstrip c s = rev (dropWhile (\<lambda>x. x = c) (rev s))"

definition lstrip :: "char \<Rightarrow> string \<Rightarrow> string" where
  "lstrip c s = dropWhile (\<lambda>x. x = c) s"

text \<open>
  \<open>s.split(c)\<close> for a one-character separator: the fields between the separators, in
  order; the result always has at least one field (\<open>"".split("/") == [""]\<close>). A
  character that is not the separator joins the first field of the rest.
\<close>

fun str_split :: "char \<Rightarrow> string \<Rightarrow> string list" where
  "str_split c [] = [[]]"
| "str_split c (x # xs) =
     (if x = c then [] # str_split c xs
      else (case str_split c xs of
              [] \<Rightarrow> [[x]]
            | field # fields \<Rightarrow> (x # field) # fields))"

text \<open>\<open>sep.join(xs)\<close>.\<close>

fun str_join :: "string \<Rightarrow> string list \<Rightarrow> string" where
  "str_join sep [] = []"
| "str_join sep [x] = x"
| "str_join sep (x # y # ys) = x @ sep @ str_join sep (y # ys)"

section \<open>pathlib paths\<close>

text \<open>
  A \<open>pathlib.Path\<close> on a POSIX system: the root (\<open>""\<close>, \<open>"/"\<close> or \<open>"//"\<close>) and the
  list of components. \<open>Path\<close> is the constructor call \<open>Path(s)\<close>, which parses a string:
  empty components and \<open>"."\<close> components are dropped. \<open>truediv\<close> is the operator
  \<open>p / key\<close>: an absolute right operand replaces the left one.
\<close>

datatype path = PosixPath (root: string) (parts: "string list")

definition splitroot :: "string \<Rightarrow> string \<times> string" where
  "splitroot p =
     (if take 1 p \<noteq> ''/'' then ('''', p)
      else if take 1 (drop 1 p) \<noteq> ''/'' \<or> take 1 (drop 2 p) = ''/'' then (''/'', drop 1 p)
      else (''//'', drop 2 p))"

definition Path :: "string \<Rightarrow> path" where
  "Path s =
     (let (r, rel) = splitroot s
      in PosixPath r (filter (\<lambda>x. x \<noteq> [] \<and> x \<noteq> ''.'') (str_split (CHR ''/'') rel)))"

definition truediv :: "path \<Rightarrow> string \<Rightarrow> path" where
  "truediv p key =
     (let k = Path key
      in if root k \<noteq> [] then k else PosixPath (root p) (parts p @ parts k))"

definition path_str :: "path \<Rightarrow> string" where
  "path_str p =
     (if root p = [] \<and> parts p = [] then ''.''
      else root p @ str_join ''/'' (parts p))"

definition parent :: "path \<Rightarrow> path" where
  "parent p = PosixPath (root p) (butlast (parts p))"

section \<open>Output options and the path planner\<close>

datatype OutputOption = HTML | MD

fun option_value :: "OutputOption \<Rightarrow> string" where
  "option_value HTML = ''html''"
| "option_value MD = ''md''"

text \<open>
  \<open>make_file_path(url, lastmod, base_dir, output_option)\<close>. The two local values
  \<open>date_part\<close> and (the first) \<open>base_name\<close> are named on their own, so that theorems can
  speak of them. The indexing \<open>[0]\<close> and \<open>[-1]\<close> of a split never raises, since a split
  has at least one field (lemma \<open>str_split_not_Nil\<close>), so \<open>hd\<close> and \<open>last\<close> are what the
  source computes.
\<close>

definition date_part :: "string \<Rightarrow> string" where
  "date_part lastmod = (if lastmod \<noteq> [] then hd (str_split (CHR ''T'') lastmod) else [])"

definition url_base_name :: "string \<Rightarrow> string" where
  "url_base_name url = last (str_split (CHR ''/'') (rstrip (CHR ''/'') url))"

definition make_file_path :: "string \<Rightarrow> string \<Rightarrow> path \<Rightarrow> OutputOption \<Rightarrow> path" where
  "make_file_path url lastmod base_dir output_option =
     (let base_name = url_base_name url;
          base_name = (if date_part lastmod \<noteq> [] then date_part lastmod @ ''_'' @ base_name
                       else base_name);
          ext = option_value output_option
      in truediv base_dir (base_name @ ''.'' @ ext))"


definition spec_last_segment :: "string \<Rightarrow> string" where
  "spec_last_segment url =
     rev (takeWhile (\<lambda>x. x \<noteq> CHR ''/'') (dropWhile (\<lambda>x. x = CHR ''/'') (rev url)))"

section \<open>Errors\<close>

text \<open>
  Exceptions are values. The errors of the network and of the browser are whatever the
  environment raises; the others are raised by the program or by the file system.
\<close>

datatype error =
    ValueError string
  | UnboundLocalError string
  | RequestException string
  | WebDriverException string
  | FileNotFoundError path
  | FileExistsError path
  | IsADirectoryError path
  | NotADirectoryError path

section \<open>Parsed documents\<close>

text \<open>
  What \<open>BeautifulSoup\<close> returns: a tree of tags (name, the values of the \<open>class\<close>
  attribute, children) and strings. The soup itself is a tag whose children are the
  top-level nodes of the document.
\<close>

datatype node = Tag string "string list" "node list" | NavigableString string

text \<open>All nodes below a node, in document order.\<close>

fun descendants :: "node \<Rightarrow> node list" where
  "descendants (Tag n cs ts) = concat (map (\<lambda>t. t # descendants t) ts)"
| "descendants (NavigableString s) = []"

fun tag_named :: "string \<Rightarrow> node \<Rightarrow> bool" where
  "tag_named n (Tag m cs ts) = (m = n)"
| "tag_named n (NavigableString s) = False"

fun tag_with_class :: "string \<Rightarrow> string \<Rightarrow> node \<Rightarrow> bool" where
  "tag_with_class n c (Tag m cs ts) = (m = n \<and> c \<in> set cs)"
| "tag_with_class n c (NavigableString s) = False"

text \<open>\<open>t.find_all(n)\<close>, \<open>t.find(n)\<close> and \<open>t.find(n, class_=c)\<close>; \<open>find\<close> is the first match or \<open>None\<close>.\<close>

definition find_all :: "string \<Rightarrow> node \<Rightarrow> node list" where
  "find_all n t = filter (tag_named n) (descendants t)"

definition find_tag :: "string \<Rightarrow> node \<Rightarrow> node option" where
  "find_tag n t = (case find_all n t of [] \<Rightarrow> None | x # _ \<Rightarrow> Some x)"

definition find_class :: "string \<Rightarrow> string \<Rightarrow> node \<Rightarrow> node option" where
  "find_class n c t =
     (case filter (tag_with_class n c) (descendants t) of [] \<Rightarrow> None | x # _ \<Rightarrow> Some x)"

text \<open>\<open>t.text\<close>: the strings below the node, concatenated.\<close>

fun get_text :: "node \<Rightarrow> string" where
  "get_text (NavigableString s) = s"
| "get_text (Tag n cs ts) = concat (map get_text ts)"

section \<open>The environment\<close>

text \<open>
  The libraries and the outside world the program calls, as parameters:
  \<open>requests_get url timeout\<close> is the body of the response of \<open>requests.get\<close> or the
  exception it raises; \<open>bs_xml\<close> and \<open>bs_lxml\<close> are \<open>BeautifulSoup(content, "xml")\<close> and
  \<open>BeautifulSoup(content, "lxml")\<close>; \<open>tag_str\<close> is \<open>str\<close> of a tag; \<open>markdownify\<close> is
  \<open>markdownify.markdownify(html, heading_style="ATX")\<close>; \<open>json_dumps\<close> is the text
  \<open>json.dump(results, f, indent=2)\<close> writes for a list of \<open>{"url", "lastmod"}\<close> entries;
  \<open>chrome\<close> is the exception \<open>webdriver.Chrome()\<close> raises, if any; \<open>driver_get url\<close> is
  \<open>driver.page_source\<close> after \<open>driver.get(url)\<close> and the settling delay, or the exception
  raised. The delay itself (a float, passed to \<open>sleep\<close>) changes nothing here and is left
  out.
\<close>

record env =
  requests_get :: "string \<Rightarrow> nat \<Rightarrow> error + string"
  bs_xml :: "string \<Rightarrow> node"
  bs_lxml :: "string \<Rightarrow> node"
  tag_str :: "node \<Rightarrow> string"
  markdownify :: "string \<Rightarrow> string"
  json_dumps :: "(string \<times> string) list \<Rightarrow> string"
  chrome :: "error option"
  driver_get :: "string \<Rightarrow> error + string"

definition SITEMAP_STRING :: string where
  "SITEMAP_STRING = ''sitemap.xml''"

definition TIMEOUT_SECONDS :: nat where
  "TIMEOUT_SECONDS = 10"

section \<open>The sitemap reader\<close>

text \<open>
  \<open>get_article_urls_and_lastmod(sitemap_url, timeout)\<close>. The loop body is \<open>sitemap_step\<close>,
  on the pair of the list \<open>urls\<close> and the dictionary \<open>url_to_lastmod\<close>. A tag is always
  truthy, so \<open>if loc\<close> and \<open>if lastmod\<close> test for \<open>None\<close>.
\<close>

definition sitemap_step ::
  "string list \<times> (string \<rightharpoonup> string) \<Rightarrow> node \<Rightarrow> string list \<times> (string \<rightharpoonup> string)" where
  "sitemap_step acc url_tag =
     (case acc of (urls, url_to_lastmod) \<Rightarrow>
        (case find_tag ''loc'' url_tag of
           None \<Rightarrow> (urls, url_to_lastmod)
         | Some loc \<Rightarrow>
             (let url_text = get_text loc
              in (urls @ [url_text],
                  url_to_lastmod(url_text \<mapsto>
                    (case find_tag ''lastmod'' url_tag of
                       Some lastmod \<Rightarrow> get_text lastmod
                     | None \<Rightarrow> []))))))"

definition get_article_urls_and_lastmod ::
  "env \<Rightarrow> string \<Rightarrow> nat \<Rightarrow> error + (string list \<times> (string \<rightharpoonup> string))" where
  "get_article_urls_and_lastmod e sitemap_url timeout =
     (case requests_get e sitemap_url timeout of
        Inl err \<Rightarrow> Inl err
      | Inr content \<Rightarrow>
          Inr (foldl sitemap_step ([], Map.empty) (find_all ''url'' (bs_xml e content))))"

text \<open>
  The sitemap entries in the words of the specification: each \<open>url\<close> element with a
  \<open>loc\<close> gives the text of its \<open>loc\<close> and the text of its \<open>lastmod\<close>, or the empty
  string without one; a \<open>url\<close> element with no \<open>loc\<close> gives nothing. The entries are in
  document order.
\<close>

definition sitemap_entry :: "node \<Rightarrow> (string \<times> string) option" where
  "sitemap_entry url_tag =
     (case find_tag ''loc'' url_tag of
        None \<Rightarrow> None
      | Some loc \<Rightarrow>
          Some (get_text loc,
                case find_tag ''lastmod'' url_tag of None \<Rightarrow> [] | Some lastmod \<Rightarrow> get_text lastmod))"

definition sitemap_entries :: "node \<Rightarrow> (string \<times> string) list" where
  "sitemap_entries doc = List.map_filter sitemap_entry (find_all ''url'' doc)"

section \<open>Extraction and conversion\<close>

definition convert_to_md :: "env \<Rightarrow> string \<Rightarrow> string" where
  "convert_to_md e html_content = markdownify e html_content"

text \<open>\<open>extract_article_html(soup)\<close>: \<open>str\<close> of the tag found, and \<open>str(None)\<close> is \<open>"None"\<close>.\<close>

definition extract_article_html :: "env \<Rightarrow> node \<Rightarrow> string" where
  "extract_article_html e soup =
     (case find_class ''div'' ''available-content'' soup of
        None \<Rightarrow> ''None''
      | Some t \<Rightarrow> tag_str e t)"

text \<open>
  The second argument of \<open>convert_to\<close> is any Python value: a member of the enumeration,
  or something else, given by its text.
\<close>

datatype option_arg = Member OutputOption | Other string

fun convert_to :: "env \<Rightarrow> string \<Rightarrow> option_arg \<Rightarrow> error + string" where
  "convert_to e html_content (Member HTML) = Inr html_content"
| "convert_to e html_content (Member MD) = Inr (convert_to_md e html_content)"
| "convert_to e html_content (Other v) = Inl (ValueError (''Unsupported output option: '' @ v))"

definition scrape_article_selenium :: "env \<Rightarrow> string \<Rightarrow> error + string" where
  "scrape_article_selenium e url =
     (case driver_get e url of
        Inl err \<Rightarrow> Inl err
      | Inr page_source \<Rightarrow> Inr (extract_article_html e (bs_lxml e page_source)))"

definition scrape_article_requests :: "env \<Rightarrow> string \<Rightarrow> nat \<Rightarrow> error + string" where
  "scrape_article_requests e url timeout =
     (case requests_get e url timeout of
        Inl err \<Rightarrow> Inl err
      | Inr content \<Rightarrow> Inr (extract_article_html e (bs_lxml e content)))"

section \<open>The state of a run\<close>

text \<open>
  The file system, the browser session and the lines printed. A file or directory is
  known by its location: the list of names that lead to it from the root directory.
  \<open>cwd\<close> is the working directory, \<open>dirs\<close> the directories that exist, \<open>files\<close> the files
  with their contents. Symbolic links and permissions are not modelled. An operation that
  returns nothing yields the exception raised, if any, and the state it leaves.
\<close>

datatype browser_state = NotStarted | Active | Released

type_synonym location = "string list"

record state =
  cwd :: location
  dirs :: "location set"
  files :: "location \<rightharpoonup> string"
  browser :: browser_state
  stdout :: "string list"

definition print :: "string \<Rightarrow> state \<Rightarrow> state" where
  "print line s = s\<lparr>stdout := stdout s @ [line]\<rparr>"

text \<open>
  How the operating system follows a path: from the root, or from the working directory
  for a relative path, one component after the other. Each component is looked up in a
  directory that must exist (\<open>NotADirectoryError\<close> when it is a file,
  \<open>FileNotFoundError\<close> when it is nothing); \<open>..\<close> leads to the directory above, and above
  the root is the root. Whether the last component exists is not looked at.
\<close>

fun walk :: "state \<Rightarrow> path \<Rightarrow> location \<Rightarrow> string list \<Rightarrow> error + location" where
  "walk s p cur [] = Inr cur"
| "walk s p cur (c # cs) =
     (if cur \<in> dirs s then walk s p (if c = ''..'' then butlast cur else cur @ [c]) cs
      else if files s cur \<noteq> None then Inl (NotADirectoryError p)
      else Inl (FileNotFoundError p))"

definition resolve :: "state \<Rightarrow> path \<Rightarrow> error + location" where
  "resolve s p = walk s p (if root p = [] then cwd s else []) (parts p)"

text \<open>The content of the file at a path, if the path leads to a file; \<open>p.is_dir()\<close>.\<close>

definition read_file :: "state \<Rightarrow> path \<Rightarrow> string option" where
  "read_file s p = (case resolve s p of Inl err \<Rightarrow> None | Inr f \<Rightarrow> files s f)"

definition is_dir :: "path \<Rightarrow> state \<Rightarrow> bool" where
  "is_dir p s = (case resolve s p of Inl err \<Rightarrow> False | Inr d \<Rightarrow> d \<in> dirs s)"

text \<open>\<open>os.mkdir(p)\<close>: makes one directory, in a directory that exists.\<close>

definition os_mkdir :: "path \<Rightarrow> state \<Rightarrow> error option \<times> state" where
  "os_mkdir p s =
     (case resolve s p of
        Inl err \<Rightarrow> (Some err, s)
      | Inr d \<Rightarrow>
          if d \<in> dirs s \<or> files s d \<noteq> None then (Some (FileExistsError p), s)
          else if butlast d \<notin> dirs s then (Some (FileNotFoundError p), s)
          else (None, s\<lparr>dirs := insert d (dirs s)\<rparr>))"

fun is_FileNotFoundError :: "error \<Rightarrow> bool" where
  "is_FileNotFoundError (FileNotFoundError p) = True"
| "is_FileNotFoundError err = False"

text \<open>
  \<open>p.mkdir(parents=False, exist_ok=True)\<close> and \<open>p.mkdir(parents=True, exist_ok=True)\<close>, as
  \<open>pathlib\<close> has them: \<open>os.mkdir\<close> is tried first; on \<open>FileNotFoundError\<close> the parent is
  made (with its parents) and \<open>os.mkdir\<close> is tried again; any other error of \<open>os.mkdir\<close>
  is let through unless the path is a directory.
\<close>

definition mkdir_exist_ok :: "path \<Rightarrow> state \<Rightarrow> error option \<times> state" where
  "mkdir_exist_ok p s =
     (case os_mkdir p s of
        (None, s1) \<Rightarrow> (None, s1)
      | (Some err, s1) \<Rightarrow>
          if is_FileNotFoundError err then (Some err, s1)
          else if is_dir p s1 then (None, s1)
          else (Some err, s1))"

function mkdir_parents :: "path \<Rightarrow> state \<Rightarrow> error option \<times> state" where
  "mkdir_parents p s =
     (case os_mkdir p s of
        (None, s1) \<Rightarrow> (None, s1)
      | (Some err, s1) \<Rightarrow>
          if is_FileNotFoundError err
          then (if parent p = p then (Some err, s1)
                else (case mkdir_parents (parent p) s1 of
                        (Some err2, s2) \<Rightarrow> (Some err2, s2)
                      | (None, s2) \<Rightarrow> mkdir_exist_ok p s2))
          else if is_dir p s1 then (None, s1)
          else (Some err, s1))"
  by pat_completeness auto
termination
proof (relation "measure (\<lambda>(p, s). length (parts p))")
  show "wf (measure (\<lambda>(p, s). length (parts p)))" by simp
next
  fix p :: path and s x1 :: state and x xa :: "error option" and x2 :: error
  assume "parent p \<noteq> p"
  then have "parts p \<noteq> []"
    by (cases p) (auto simp: parent_def)
  then show "((parent p, x1), (p, s)) \<in> measure (\<lambda>(p, s). length (parts p))"
    by (simp add: parent_def)
qed

declare mkdir_parents.simps [simp del]

text \<open>
  \<open>shutil.rmtree(p, ignore_errors=True)\<close>: removes a directory with all below it, and does
  nothing (the error is ignored) when the path does not lead to a directory.
\<close>

definition rmtree :: "path \<Rightarrow> state \<Rightarrow> state" where
  "rmtree p s =
     (case resolve s p of
        Inl err \<Rightarrow> s
      | Inr d \<Rightarrow>
          if d \<in> dirs s
          then s\<lparr>dirs := Set.filter (\<lambda>x. \<not> prefix d x) (dirs s),
                 files := (\<lambda>f. if prefix d f then None else files s f)\<rparr>
          else s)"

text \<open>
  \<open>open(p, "w")\<close> creates or truncates the file the path leads to, in a directory that
  exists, and gives the open file; it fails when the path leads to a directory.
  \<open>f.write(data)\<close> appends to the open file.
\<close>

definition open_w :: "path \<Rightarrow> state \<Rightarrow> error + (location \<times> state)" where
  "open_w p s =
     (case resolve s p of
        Inl err \<Rightarrow> Inl err
      | Inr f \<Rightarrow>
          if f \<in> dirs s then Inl (IsADirectoryError p)
          else if butlast f \<notin> dirs s then Inl (FileNotFoundError p)
          else Inr (f, s\<lparr>files := (files s)(f \<mapsto> [])\<rparr>))"

definition file_write :: "location \<Rightarrow> string \<Rightarrow> state \<Rightarrow> state" where
  "file_write f data s =
     s\<lparr>files := (files s)(f \<mapsto> (case files s f of None \<Rightarrow> data | Some old \<Rightarrow> old @ data))\<rparr>"

text \<open>\<open>store_sitemap(path, urls)\<close>; \<open>writelines\<close> writes the lines one after the other.\<close>

definition store_sitemap :: "path \<Rightarrow> string list \<Rightarrow> state \<Rightarrow> error option \<times> state" where
  "store_sitemap p urls s =
     (case open_w p s of
        Inl err \<Rightarrow> (Some err, s)
      | Inr (url_file, s1) \<Rightarrow>
          (None, print (''Saved URLs to '' @ path_str p)
                   (foldl (\<lambda>t url. file_write url_file (url @ [CHR 0x0A]) t) s1 urls)))"

text \<open>
  \<open>selenium_login()\<close>: starts the browser, opens the sign-in page and waits for the
  operator. An exception after the browser has started leaves it running.
\<close>

definition selenium_login :: "env \<Rightarrow> state \<Rightarrow> error option \<times> state" where
  "selenium_login e s =
     (case chrome e of
        Some err \<Rightarrow> (Some err, s)
      | None \<Rightarrow>
          (case driver_get e ''https://substack.com/sign-in'' of
             Inl err \<Rightarrow> (Some err, s\<lparr>browser := Active\<rparr>)
           | Inr page \<Rightarrow> (None, print ''Continuing with scraping...'' (s\<lparr>browser := Active\<rparr>))))"

definition driver_quit :: "state \<Rightarrow> state" where
  "driver_quit s = s\<lparr>browser := Released\<rparr>"

section \<open>The orchestrator\<close>

text \<open>The decimal text of a number, for the f-strings that print a length.\<close>

fun string_of_nat :: "nat \<Rightarrow> string" where
  "string_of_nat n =
     (if n < 10 then [''0123456789'' ! n]
      else string_of_nat (n div 10) @ [''0123456789'' ! (n mod 10)])"

declare string_of_nat.simps [simp del]

text \<open>The parsed arguments; \<open>output_folder\<close> is \<open>args.output\<close>.\<close>

record args =
  url :: string
  sitemap :: string
  paid :: bool
  output_folder :: string

text \<open>Iterating over the enumeration gives its members in the order of their definition.\<close>

definition OutputOption_members :: "OutputOption list" where
  "OutputOption_members = [HTML, MD]"

text \<open>The first loop of \<open>main\<close> over the output options: each directory is cleared and made anew.\<close>

fun clear_dirs :: "path \<Rightarrow> OutputOption list \<Rightarrow> state \<Rightarrow> error option \<times> state" where
  "clear_dirs output_dir [] s = (None, s)"
| "clear_dirs output_dir (output_option # rest) s =
     (let base_dir = truediv output_dir (option_value output_option)
      in case mkdir_parents base_dir (rmtree base_dir s) of
           (Some err, s1) \<Rightarrow> (Some err, s1)
         | (None, s1) \<Rightarrow> clear_dirs output_dir rest s1)"

text \<open>
  The inner loop of \<open>main\<close> over the output options, for one article: the file is opened
  first, then the content is converted and written.
\<close>

fun write_outputs ::
  "env \<Rightarrow> path \<Rightarrow> string \<Rightarrow> string \<Rightarrow> string \<Rightarrow> OutputOption list \<Rightarrow> state
    \<Rightarrow> error option \<times> state" where
  "write_outputs e output_dir u lastmod content [] s = (None, s)"
| "write_outputs e output_dir u lastmod content (output_option # rest) s =
     (let base_dir = truediv output_dir (option_value output_option);
          p = make_file_path u lastmod base_dir output_option
      in case open_w p s of
           Inl err \<Rightarrow> (Some err, s)
         | Inr (f, s1) \<Rightarrow>
             (case convert_to e content (Member output_option) of
                Inl err \<Rightarrow> (Some err, s1)
              | Inr data \<Rightarrow>
                  write_outputs e output_dir u lastmod content rest (file_write f data s1)))"

text \<open>
  The loop of \<open>main\<close> over the URLs. It yields the exception that ended it, if any, the
  list \<open>results\<close> and the state.
\<close>

fun scrape_loop ::
  "env \<Rightarrow> args \<Rightarrow> path \<Rightarrow> (string \<rightharpoonup> string) \<Rightarrow> string list \<Rightarrow> (string \<times> string) list
    \<Rightarrow> state \<Rightarrow> error option \<times> (string \<times> string) list \<times> state" where
  "scrape_loop e a output_dir url_to_lastmod [] results s = (None, results, s)"
| "scrape_loop e a output_dir url_to_lastmod (u # rest) results s =
     (let s1 = print (''Scraping '' @ u) s
      in case (if paid a then scrape_article_selenium e u
               else scrape_article_requests e u TIMEOUT_SECONDS) of
           Inl err \<Rightarrow> (Some err, results, s1)
         | Inr content \<Rightarrow>
             if content = []
             then scrape_loop e a output_dir url_to_lastmod rest results
                    (print (''No content found for '' @ u @ '', skipping.'') s1)
             else
               (let lastmod = (case url_to_lastmod u of None \<Rightarrow> [] | Some l \<Rightarrow> l)
                in case write_outputs e output_dir u lastmod content OutputOption_members s1 of
                     (Some err, s2) \<Rightarrow> (Some err, results, s2)
                   | (None, s2) \<Rightarrow>
                       scrape_loop e a output_dir url_to_lastmod rest
                         (results @ [(u, lastmod)]) s2))"

text \<open>
  \<open>main()\<close>, after the arguments are parsed. The local \<open>output_dir\<close> is bound only when
  the output argument is not \<open>"."\<close>; reading it unbound raises \<open>UnboundLocalError\<close>. The
  local \<open>driver\<close> is \<open>None\<close> or the browser. The result is the exception that ended the
  run, if any, the list \<open>results\<close> as far as it was built, and the final state.
\<close>

datatype webdriver = Chrome

definition main :: "env \<Rightarrow> args \<Rightarrow> state \<Rightarrow> error option \<times> (string \<times> string) list \<times> state" where
  "main e a s0 =
     (let sitemap_url = rstrip (CHR ''/'') (url a) @ ''/'' @ lstrip (CHR ''/'') (sitemap a);
          output_dir = (if output_folder a \<noteq> ''.'' then Some (Path (output_folder a)) else None)
      in case (case output_dir of None \<Rightarrow> (None, s0) | Some d \<Rightarrow> mkdir_parents d s0) of
           (Some err, s1) \<Rightarrow> (Some err, [], s1)
         | (None, s1) \<Rightarrow>
      (case (if paid a
             then (case selenium_login e (print ''Paid mode enabled. Manual login required.'' s1) of
                     (Some err, s2) \<Rightarrow> (Some err, None, s2)
                   | (None, s2) \<Rightarrow> (None, Some Chrome, s2))
             else (None, None, print ''Scraping free content only.'' s1)) of
           (Some err, driver, s2) \<Rightarrow> (Some err, [], s2)
         | (None, driver, s2) \<Rightarrow>
      (let s3 = print ''Fetching sitemap...'' s2
       in case get_article_urls_and_lastmod e sitemap_url TIMEOUT_SECONDS of
            Inl err \<Rightarrow> (Some err, [], s3)
          | Inr (urls, url_to_lastmod) \<Rightarrow>
      (let s4 = print (''Found '' @ string_of_nat (length urls) @ '' articles.'') s3
       in case output_dir of
            None \<Rightarrow> (Some (UnboundLocalError ''output_dir''), [], s4)
          | Some output_dir \<Rightarrow>
      (case store_sitemap (truediv output_dir ''urls.txt'') urls s4 of
         (Some err, s5) \<Rightarrow> (Some err, [], s5)
       | (None, s5) \<Rightarrow>
      (case clear_dirs output_dir OutputOption_members s5 of
         (Some err, s6) \<Rightarrow> (Some err, [], s6)
       | (None, s6) \<Rightarrow>
      (case scrape_loop e a output_dir url_to_lastmod urls [] s6 of
         (Some err, results, s7) \<Rightarrow> (Some err, results, s7)
       | (None, results, s7) \<Rightarrow>
      (let summary_path = truediv output_dir ''summary.json''
       in case open_w summary_path s7 of
            Inl err \<Rightarrow> (Some err, results, s7)
          | Inr (f, s8) \<Rightarrow>
              (let s9 = file_write f (json_dumps e results) s8;
                   s10 = print (''Saved '' @ string_of_nat (length results) @ '' articles to ''
                            @ path_str summary_path) s9;
                   s11 = (if driver \<noteq> None then driver_quit s10 else s10)
               in (None, results, s11))))))))))"

section \<open>The invariant of the manifest\<close>

text \<open>
  For every entry of \<open>results\<close> and every output option, the path that \<open>make_file_path\<close>
  plans, with the option's directory of \<open>output_dir\<close> as base, leads to a file.
\<close>

definition planned_files_exist :: "path \<Rightarrow> (string \<times> string) list \<Rightarrow> state \<Rightarrow> bool" where
  "planned_files_exist d results s =
     (\<forall>(u, l) \<in> set results. \<forall>x.
        read_file s (make_file_path u l (truediv d (option_value x)) x) \<noteq> None)"

text \<open>
  From one state to a later one nothing is removed: the directories and the working
  directory are the same, and every file is still a file.
\<close>

definition keeps :: "state \<Rightarrow> state \<Rightarrow> bool" where
  "keeps s s' = (dirs s' = dirs s \<and> cwd s' = cwd s \<and> dom (files s) \<subseteq> dom (files s'))"

text \<open>
  From one state to a later one no file named \<open>summary.json\<close> is written: such a file of
  the later state is one of the earlier state, with the content it had.
\<close>

definition summary_kept :: "state \<Rightarrow> state \<Rightarrow> bool" where
  "summary_kept s s' =
     (\<forall>K. files s' (K @ [''summary.json'']) = None
          \<or> files s' (K @ [''summary.json'']) = files s (K @ [''summary.json'']))"

section \<open>An example world\<close>

text \<open>
  A newsletter at \<open>https://n.example\<close> whose sitemap lists three articles, \<open>a\<close>, \<open>b\<close>
  and \<open>c\<close> (the second without \<open>lastmod\<close>), and one \<open>url\<close> element with no \<open>loc\<close>. A page
  body is parsed into a document with the content container around the body's text;
  the body \<open>EMPTY\<close> is parsed into a document with no container. The parameter \<open>fetch\<close>
  is what the network (and the browser) answers for each URL. A second sitemap, served
  when the sitemap's body is \<open>ABS\<close>, lists the article \<open>a\<close> alone, with a \<open>lastmod\<close> that
  begins with a slash.
\<close>

definition example_sitemap :: node where
  "example_sitemap =
     Tag ''[document]'' []
       [Tag ''urlset'' []
          [Tag ''url'' []
             [Tag ''loc'' [] [NavigableString ''https://n.example/p/a''],
              Tag ''lastmod'' [] [NavigableString ''2024-03-05T12:00:00Z'']],
           Tag ''url'' []
             [Tag ''lastmod'' [] [NavigableString ''2024-03-06T08:00:00Z'']],
           Tag ''url'' []
             [Tag ''loc'' [] [NavigableString ''https://n.example/p/b'']],
           Tag ''url'' []
             [Tag ''loc'' [] [NavigableString ''https://n.example/p/c/''],
              Tag ''lastmod'' [] [NavigableString ''2024-03-07T09:30:00Z'']]]]"

definition abs_sitemap :: node where
  "abs_sitemap =
     Tag ''[document]'' []
       [Tag ''urlset'' []
          [Tag ''url'' []
             [Tag ''loc'' [] [NavigableString ''https://n.example/p/a''],
              Tag ''lastmod'' [] [NavigableString ''/absT1'']]]]"

definition example_page :: "string \<Rightarrow> node" where
  "example_page body =
     (if body = ''EMPTY''
      then Tag ''[document]'' [] [Tag ''html'' [] [Tag ''body'' [] [Tag ''div'' [''paywall''] []]]]
      else Tag ''[document]'' []
             [Tag ''html'' []
                [Tag ''body'' []
                   [Tag ''div'' [''post'', ''available-content''] [NavigableString body]]]])"

definition example_env :: "(string \<Rightarrow> error + string) \<Rightarrow> env" where
  "example_env fetch =
     \<lparr>requests_get = (\<lambda>u timeout. fetch u),
      bs_xml = (\<lambda>content. if content = ''ABS'' then abs_sitemap else example_sitemap),
      bs_lxml = example_page,
      tag_str = (\<lambda>t. ''<div>'' @ get_text t @ ''</div>''),
      markdownify = (\<lambda>html. ''md '' @ html),
      json_dumps = (\<lambda>results. concat (map (\<lambda>(u, l). u @ '' '' @ l @ '';'') results)),
      chrome = None,
      driver_get = fetch\<rparr>"

text \<open>Every URL answers; the body is the last path segment of the URL.\<close>

definition fetch_ok :: "string \<Rightarrow> error + string" where
  "fetch_ok u = Inr (url_base_name u)"

text \<open>The second article's fetch raises.\<close>

definition fetch_second_raises :: "string \<Rightarrow> error + string" where
  "fetch_second_raises u =
     (if u = ''https://n.example/p/b'' then Inl (RequestException ''timed out'') else fetch_ok u)"

text \<open>The second article's page has no content container.\<close>

definition fetch_second_empty :: "string \<Rightarrow> error + string" where
  "fetch_second_empty u =
     (if u = ''https://n.example/p/b'' then Inr ''EMPTY'' else fetch_ok u)"

text \<open>The sitemap cannot be retrieved.\<close>

definition fetch_no_sitemap :: "string \<Rightarrow> error + string" where
  "fetch_no_sitemap u =
     (if u = ''https://n.example/sitemap.xml'' then Inl (RequestException ''refused'')
      else fetch_ok u)"

text \<open>The sitemap is the second one.\<close>

definition fetch_abs :: "string \<Rightarrow> error + string" where
  "fetch_abs u =
     (if u = ''https://n.example/sitemap.xml'' then Inr ''ABS'' else fetch_ok u)"

definition example_args :: "bool \<Rightarrow> string \<Rightarrow> args" where
  "example_args p out =
     \<lparr>url = ''https://n.example/'', sitemap = ''/sitemap.xml'', paid = p, output_folder = out\<rparr>"

text \<open>
  A file system with the root and the working directory \<open>/work\<close> only; no browser, nothing
  printed.
\<close>

definition example_state :: state where
  "example_state =
     \<lparr>cwd = [''work''], dirs = {[], [''work'']}, files = Map.empty, browser = NotStarted,
      stdout = []\<rparr>"

section \<open>Facts about strings and paths\<close>

lemma str_split_not_Nil: "str_split c s \<noteq> []"
  by (induction s) (auto split: list.splits)

lemma hd_str_split: "hd (str_split c s) = takeWhile (\<lambda>x. x \<noteq> c) s"
  by (induction s) (auto simp: str_split_not_Nil split: list.splits)

lemma str_split_no_sep: "c \<notin> set s \<Longrightarrow> str_split c s = [s]"
  by (induction s) auto

lemma tl_str_split_sep: "c \<in> set s \<Longrightarrow> tl (str_split c s) \<noteq> []"
  by (induction s) (auto simp: str_split_not_Nil split: list.splits)

lemma last_str_split: "last (str_split c s) = rev (takeWhile (\<lambda>x. x \<noteq> c) (rev s))"
proof (induction s)
  case Nil
  show ?case by simp
next
  case (Cons x xs)
  show ?case
  proof (cases "c \<in> set xs")
    case True
    then have tw: "takeWhile (\<lambda>x. x \<noteq> c) (rev xs @ [x]) = takeWhile (\<lambda>x. x \<noteq> c) (rev xs)"
      by (intro takeWhile_append1 [of c]) auto
    from True have "tl (str_split c xs) \<noteq> []" by (rule tl_str_split_sep)
    then have "last (str_split c (x # xs)) = last (str_split c xs)"
      by (cases "str_split c xs") auto
    with Cons tw show ?thesis by simp
  next
    case False
    then have "str_split c xs = [xs]" by (rule str_split_no_sep)
    moreover
    have "takeWhile (\<lambda>x. x \<noteq> c) (rev xs @ [x]) = rev xs @ takeWhile (\<lambda>x. x \<noteq> c) [x]"
      by (rule takeWhile_append2) (use False in auto)
    ultimately show ?thesis by simp
  qed
qed

lemma rstrip_rev: "rev (rstrip c s) = dropWhile (\<lambda>x. x = c) (rev s)"
  by (simp add: rstrip_def)

lemma url_base_name_eq: "url_base_name u = spec_last_segment u"
  by (simp add: url_base_name_def last_str_split rstrip_rev spec_last_segment_def)

lemma date_part_eq: "date_part lastmod = takeWhile (\<lambda>x. x \<noteq> CHR ''T'') lastmod"
  by (simp add: date_part_def hd_str_split)

lemma spec_last_segment_no_slash: "CHR ''/'' \<notin> set (spec_last_segment u)"
proof
  assume "CHR ''/'' \<in> set (spec_last_segment u)"
  then have "CHR ''/'' \<in> set (takeWhile (\<lambda>x. x \<noteq> CHR ''/'')
      (dropWhile (\<lambda>x. x = CHR ''/'') (rev u)))"
    by (simp add: spec_last_segment_def)
  from set_takeWhileD [OF this] show False by simp
qed

lemma Path_single:
  assumes "CHR ''/'' \<notin> set s" and "s \<noteq> []" and "s \<noteq> ''.''"
  shows "Path s = PosixPath [] [s]"
proof -
  from assms(1,2) have "take 1 s \<noteq> ''/''"
    by (cases s) auto
  then have "splitroot s = ([], s)" by (simp add: splitroot_def)
  with assms show ?thesis
    by (simp add: Path_def str_split_no_sep)
qed

lemma truediv_single:
  assumes "CHR ''/'' \<notin> set s" and "s \<noteq> []" and "s \<noteq> ''.''"
  shows "truediv p s = PosixPath (root p) (parts p @ [s])"
  using Path_single [OF assms] by (simp add: truediv_def)


lemma base_name_no_slash: "CHR ''/'' \<notin> set (url_base_name u)"
  by (simp add: url_base_name_eq spec_last_segment_no_slash)

lemma file_name_ok:
  assumes "CHR ''/'' \<notin> set d"
  shows "CHR ''/'' \<notin> set (d @ url_base_name u @ ''.'' @ option_value opt)"
    and "d @ url_base_name u @ ''.'' @ option_value opt \<noteq> []"
    and "d @ url_base_name u @ ''.'' @ option_value opt \<noteq> ''.''"
  using assms base_name_no_slash [of u] by (cases opt; simp add: append_eq_Cons_conv)+

lemma make_file_path_plain:
  assumes "CHR ''/'' \<notin> set (date_part lastmod)"
  shows "make_file_path u lastmod base opt =
    PosixPath (root base) (parts base @
      [(if date_part lastmod \<noteq> [] then date_part lastmod @ ''_'' else []) @
        url_base_name u @ ''.'' @ option_value opt])"
proof (cases "date_part lastmod = []")
  case True
  then show ?thesis
    using truediv_single [OF file_name_ok [of "[]" u opt], of base]
    by (simp add: make_file_path_def)
next
  case False
  from assms have "CHR ''/'' \<notin> set (date_part lastmod @ ''_'')" by simp
  from truediv_single [OF file_name_ok [OF this, of u opt], of base] False
  show ?thesis
    by (simp add: make_file_path_def)
qed


lemma append_sep_eq_iff:
  assumes "x \<notin> set a" and "x \<notin> set b"
  shows "(a @ x # u = b @ x # v) = (a = b \<and> u = v)"
  using assms
proof (induction a arbitrary: b)
  case Nil
  then show ?case by (cases b) auto
next
  case (Cons y a)
  then show ?case by (cases b) auto
qed

lemma file_name_inj:
  assumes "CHR ''_'' \<notin> set d1" and "CHR ''_'' \<notin> set d2"
    and "d1 = [] \<Longrightarrow> d2 \<noteq> [] \<Longrightarrow> CHR ''_'' \<notin> set b1"
    and "d2 = [] \<Longrightarrow> d1 \<noteq> [] \<Longrightarrow> CHR ''_'' \<notin> set b2"
  shows "((if d1 \<noteq> [] then d1 @ ''_'' else []) @ b1 @ ''.'' @ e =
          (if d2 \<noteq> [] then d2 @ ''_'' else []) @ b2 @ ''.'' @ e) = (d1 = d2 \<and> b1 = b2)"
proof (cases "d1 = []")
  case True
  note d1 = True
  show ?thesis
  proof (cases "d2 = []")
    case True
    with d1 show ?thesis by simp
  next
    case False
    from assms(3) [OF d1 False] have "b1 \<noteq> d2 @ CHR ''_'' # b2" by auto
    with d1 False show ?thesis by auto
  qed
next
  case False
  note d1 = False
  show ?thesis
  proof (cases "d2 = []")
    case True
    from assms(4) [OF True d1] have "b2 \<noteq> d1 @ CHR ''_'' # b1" by auto
    with d1 True show ?thesis by auto
  next
    case False
    from assms(1,2)
    have "(d1 @ CHR ''_'' # b1 @ ''.'' @ e = d2 @ CHR ''_'' # b2 @ ''.'' @ e)
        = (d1 = d2 \<and> b1 @ ''.'' @ e = b2 @ ''.'' @ e)"
      by (rule append_sep_eq_iff)
    with d1 False show ?thesis by simp
  qed
qed

section \<open>The path planner\<close>


text \<open>
  Claim C6, as stated, fails: an undated URL whose last segment is \<open>2024-03-05_x\<close> and a
  URL whose last segment is \<open>x\<close>, dated \<open>2024-03-05\<close>, differ in segment and in date and
  are planned at the same path.
\<close>

theorem make_file_path_collision:
  "url_base_name ''https://n.substack.com/p/2024-03-05_x''
     \<noteq> url_base_name ''https://n.substack.com/p/x''
   \<and> date_part [] \<noteq> date_part ''2024-03-05T12:00:00Z''
   \<and> make_file_path ''https://n.substack.com/p/2024-03-05_x'' [] (Path ''out/html'') HTML
     = make_file_path ''https://n.substack.com/p/x'' ''2024-03-05T12:00:00Z''
         (Path ''out/html'') HTML"
  by (simp add: make_file_path_plain date_part_eq url_base_name_eq spec_last_segment_def)

text \<open>
  Claim C6, amended. For two inputs whose date parts contain neither an underscore nor a
  slash, and where, if exactly one of the two date parts is empty, the last path segment
  of the input without a date contains no underscore: for the same base directory and
  output option, the planned paths are equal exactly when the last path segments are
  equal and the date parts are equal.
\<close>

theorem make_file_path_distinct:
  assumes "CHR ''_'' \<notin> set (date_part lastmod1)" and "CHR ''/'' \<notin> set (date_part lastmod1)"
    and "CHR ''_'' \<notin> set (date_part lastmod2)" and "CHR ''/'' \<notin> set (date_part lastmod2)"
    and "date_part lastmod1 = [] \<Longrightarrow> date_part lastmod2 \<noteq> [] \<Longrightarrow>
           CHR ''_'' \<notin> set (url_base_name url1)"
    and "date_part lastmod2 = [] \<Longrightarrow> date_part lastmod1 \<noteq> [] \<Longrightarrow>
           CHR ''_'' \<notin> set (url_base_name url2)"
  shows "(make_file_path url1 lastmod1 base_dir opt = make_file_path url2 lastmod2 base_dir opt)
      = (url_base_name url1 = url_base_name url2 \<and> date_part lastmod1 = date_part lastmod2)"
  using file_name_inj [OF assms(1,3,5,6), of "option_value opt"]
  by (simp add: make_file_path_plain [OF assms(2)] make_file_path_plain [OF assms(4)] conj_commute)

theorem make_file_path_distinct_witness:
  "CHR ''_'' \<notin> set (date_part ''2024-03-05T12:00:00Z'')
   \<and> CHR ''/'' \<notin> set (date_part ''2024-03-05T12:00:00Z'')
   \<and> CHR ''_'' \<notin> set (date_part [])
   \<and> CHR ''/'' \<notin> set (date_part [])
   \<and> date_part ''2024-03-05T12:00:00Z'' \<noteq> [] \<and> date_part [] = []
   \<and> CHR ''_'' \<notin> set (url_base_name ''https://n.substack.com/p/second-post/'')
   \<and> url_base_name ''https://n.substack.com/p/first-post''
       \<noteq> url_base_name ''https://n.substack.com/p/second-post/''
   \<and> make_file_path ''https://n.substack.com/p/first-post'' ''2024-03-05T12:00:00Z''
         (Path ''out/html'') HTML
       \<noteq> make_file_path ''https://n.substack.com/p/second-post/'' [] (Path ''out/html'') HTML
   \<and> make_file_path ''https://n.substack.com/p/first-post/'' ''2024-03-05T12:00:00Z''
         (Path ''out/html'') HTML
       = make_file_path ''https://n.substack.com/first-post'' ''2024-03-05T18:30:00Z''
         (Path ''out/html'') HTML"
  using make_file_path_distinct [where ?lastmod1.0 = "''2024-03-05T12:00:00Z''"
      and ?lastmod2.0 = "[]" and ?url1.0 = "''https://n.substack.com/p/first-post''"
      and ?url2.0 = "''https://n.substack.com/p/second-post/''"
      and base_dir = "Path ''out/html''" and opt = HTML]
    make_file_path_distinct [where ?lastmod1.0 = "''2024-03-05T12:00:00Z''"
      and ?lastmod2.0 = "''2024-03-05T18:30:00Z''"
      and ?url1.0 = "''https://n.substack.com/p/first-post/''"
      and ?url2.0 = "''https://n.substack.com/first-post''"
      and base_dir = "Path ''out/html''" and opt = HTML]
  by (simp add: date_part_eq url_base_name_eq spec_last_segment_def)

section \<open>The sitemap reader returns the entries of the document\<close>

lemma sitemap_step_entry:
  "sitemap_step (urls, m) t =
     (case sitemap_entry t of None \<Rightarrow> (urls, m) | Some (x, l) \<Rightarrow> (urls @ [x], m(x \<mapsto> l)))"
  by (simp add: sitemap_step_def sitemap_entry_def split: option.splits)

lemma foldl_sitemap_step:
  "foldl sitemap_step (urls, m) tags =
     (urls @ map fst (List.map_filter sitemap_entry tags),
      m ++ map_of (rev (List.map_filter sitemap_entry tags)))"
proof (induction tags arbitrary: urls m)
  case Nil
  show ?case by (simp add: map_filter_simps)
next
  case (Cons t tags)
  show ?case
  proof (cases "sitemap_entry t")
    case None
    then show ?thesis
      by (simp add: sitemap_step_entry Cons.IH map_filter_simps)
  next
    case (Some en)
    obtain x l where en: "en = (x, l)" by (cases en)
    let ?rest = "List.map_filter sitemap_entry tags"
    have key: "m(x \<mapsto> l) ++ map_of (rev ?rest) = m ++ map_of (rev ((x, l) # ?rest))"
      by (rule ext) (simp add: map_add_def split: option.splits)
    have mf: "List.map_filter sitemap_entry (t # tags) = (x, l) # ?rest"
      using Some en by (simp add: map_filter_simps)
    have st: "sitemap_step (urls, m) t = (urls @ [x], m(x \<mapsto> l))"
      using Some en by (simp add: sitemap_step_entry)
    have "foldl sitemap_step (urls, m) (t # tags)
        = foldl sitemap_step (urls @ [x], m(x \<mapsto> l)) tags"
      by (simp only: foldl_Cons st)
    also have "\<dots> = ((urls @ [x]) @ map fst ?rest, m(x \<mapsto> l) ++ map_of (rev ?rest))"
      by (rule Cons.IH)
    also have "\<dots> = (urls @ map fst ((x, l) # ?rest), m ++ map_of (rev ((x, l) # ?rest)))"
      by (simp only: key) simp
    finally show ?thesis by (simp only: mf)
  qed
qed

lemma map_of_rev_last:
  "u \<in> fst ` set ents \<Longrightarrow>
     map_of (rev ents) u = Some (snd (last (filter (\<lambda>en. fst en = u) ents)))"
proof (induction ents rule: rev_induct)
  case Nil
  then show ?case by simp
next
  case (snoc x ents)
  show ?case
  proof (cases "fst x = u")
    case True
    then show ?thesis by (cases x) simp
  next
    case False
    with snoc.prems have "u \<in> fst ` set ents" by auto
    with snoc.IH False show ?thesis by (cases x) simp
  qed
qed

lemma map_of_rev_distinct:
  assumes "distinct (map fst ents)" and "en \<in> set ents"
  shows "map_of (rev ents) (fst en) = Some (snd en)"
proof -
  from assms(1) have "distinct (map fst (rev ents))" by (simp add: rev_map [symmetric])
  moreover from assms(2) have "(fst en, snd en) \<in> set (rev ents)" by simp
  ultimately show ?thesis by (rule map_of_is_SomeI)
qed

text \<open>
  Claim C8. When the sitemap is retrieved, the reader returns the \<open>loc\<close> texts of the
  \<open>url\<close> elements that have a \<open>loc\<close>, in document order (elements without one are left
  out and shift nothing), and a mapping defined on exactly these URLs, which gives each
  URL the \<open>lastmod\<close> text of its entry, or the empty string when the entry has none (for a
  URL listed more than once, of its last entry).
\<close>

theorem get_article_urls_and_lastmod_entries:
  assumes "requests_get e sitemap_url timeout = Inr content"
  shows "\<exists>urls m. get_article_urls_and_lastmod e sitemap_url timeout = Inr (urls, m)
     \<and> urls = map fst (sitemap_entries (bs_xml e content))
     \<and> dom m = set urls
     \<and> (\<forall>u \<in> set urls. m u =
          Some (snd (last (filter (\<lambda>en. fst en = u) (sitemap_entries (bs_xml e content))))))
     \<and> (distinct urls \<longrightarrow> (\<forall>en \<in> set (sitemap_entries (bs_xml e content)). m (fst en) = Some (snd en)))"
proof -
  let ?ents = "sitemap_entries (bs_xml e content)"
  have ents: "?ents = List.map_filter sitemap_entry (find_all ''url'' (bs_xml e content))"
    by (simp add: sitemap_entries_def)
  have run: "get_article_urls_and_lastmod e sitemap_url timeout
      = Inr (map fst ?ents, map_of (rev ?ents))"
    using assms by (simp add: get_article_urls_and_lastmod_def foldl_sitemap_step ents)
  have d: "dom (map_of (rev ?ents)) = set (map fst ?ents)"
    by (simp add: dom_map_of_conv_image_fst)
  have l: "\<forall>u \<in> set (map fst ?ents). map_of (rev ?ents) u =
          Some (snd (last (filter (\<lambda>en. fst en = u) ?ents)))"
    using map_of_rev_last [of _ ?ents] by simp
  have di: "distinct (map fst ?ents) \<longrightarrow> (\<forall>en \<in> set ?ents. map_of (rev ?ents) (fst en) = Some (snd en))"
    using map_of_rev_distinct [of ?ents] by blast
  from run d l di show ?thesis by blast
qed

section \<open>Facts about the state\<close>

lemma files_print [simp]: "files (print line s) = files s"
  and dirs_print [simp]: "dirs (print line s) = dirs s"
  and cwd_print [simp]: "cwd (print line s) = cwd s"
  and browser_print [simp]: "browser (print line s) = browser s"
  by (simp_all add: print_def)

lemma dirs_file_write [simp]: "dirs (file_write f d s) = dirs s"
  and cwd_file_write [simp]: "cwd (file_write f d s) = cwd s"
  and browser_file_write [simp]: "browser (file_write f d s) = browser s"
  by (simp_all add: file_write_def)

lemma files_file_write:
  "files (file_write f d s) = (files s)(f \<mapsto> (case files s f of None \<Rightarrow> d | Some old \<Rightarrow> old @ d))"
  by (simp add: file_write_def)

lemma file_write_files: "dom (files (file_write f d s)) = insert f (dom (files s))"
  by (auto simp: file_write_def)

text \<open>Where a path leads depends on the directories and the working directory only.\<close>

lemma walk_same_dirs:
  "dirs s' = dirs s \<Longrightarrow> walk s p cur cs = Inr f \<Longrightarrow> walk s' p cur cs = Inr f"
  by (induction cs arbitrary: cur) (auto split: if_splits)

lemma resolve_same_dirs:
  "dirs s' = dirs s \<Longrightarrow> cwd s' = cwd s \<Longrightarrow> resolve s p = Inr f \<Longrightarrow> resolve s' p = Inr f"
  by (auto simp: resolve_def intro: walk_same_dirs)

lemma open_w_result:
  assumes "open_w p s = Inr (f, s')"
  shows "resolve s p = Inr f" and "f \<notin> dirs s" and "butlast f \<in> dirs s"
    and "s' = s\<lparr>files := (files s)(f \<mapsto> [])\<rparr>"
  using assms by (auto simp: open_w_def split: sum.splits if_splits)

lemma open_w_opens:
  assumes "resolve s p = Inr f" and "f \<notin> dirs s" and "butlast f \<in> dirs s"
  shows "open_w p s = Inr (f, s\<lparr>files := (files s)(f \<mapsto> [])\<rparr>)"
  using assms by (simp add: open_w_def)

lemma writelines_content:
  "files s f = Some old \<Longrightarrow>
   files (foldl (\<lambda>t u. file_write f (u @ [CHR 0x0A]) t) s urls) f
     = Some (old @ concat (map (\<lambda>u. u @ [CHR 0x0A]) urls))"
proof (induction urls arbitrary: s old)
  case Nil
  then show ?case by simp
next
  case (Cons u urls)
  have "files (file_write f (u @ [CHR 0x0A]) s) f = Some (old @ u @ [CHR 0x0A])"
    using Cons.prems by (simp add: files_file_write)
  from Cons.IH [OF this] show ?case by simp
qed

lemma writelines_same [simp]:
  "dirs (foldl (\<lambda>t u. file_write f (g u) t) s urls) = dirs s"
  "cwd (foldl (\<lambda>t u. file_write f (g u) t) s urls) = cwd s"
  "browser (foldl (\<lambda>t u. file_write f (g u) t) s urls) = browser s"
  by (induction urls arbitrary: s) simp_all

lemma store_sitemap_written:
  assumes "store_sitemap p urls s = (None, s')"
  shows "read_file s' p = Some (concat (map (\<lambda>u. u @ [CHR 0x0A]) urls))"
proof -
  from assms obtain f s1 where o: "open_w p s = Inr (f, s1)"
    by (cases "open_w p s") (auto simp: store_sitemap_def)
  note r = open_w_result [OF o]
  let ?s2 = "foldl (\<lambda>t url. file_write f (url @ [CHR 0x0A]) t) s1 urls"
  from o assms have s': "s' = print (''Saved URLs to '' @ path_str p) ?s2"
    by (simp add: store_sitemap_def)
  from r(4) have "files s1 f = Some []" by simp
  from writelines_content [OF this, of urls]
  have c: "files s' f = Some (concat (map (\<lambda>u. u @ [CHR 0x0A]) urls))"
    by (simp add: s')
  from r(4) have "dirs s' = dirs s" "cwd s' = cwd s" by (simp_all add: s')
  from resolve_same_dirs [OF this r(1)] c show ?thesis
    by (simp add: read_file_def)
qed

text \<open>No operation on the file system touches the browser.\<close>

lemma os_mkdir_browser: "os_mkdir p s = (r, s') \<Longrightarrow> browser s' = browser s"
  by (auto simp: os_mkdir_def split: sum.splits if_splits)

lemma os_mkdir_raises: "os_mkdir p s = (Some err, s') \<Longrightarrow> s' = s"
  by (auto simp: os_mkdir_def split: sum.splits if_splits)

lemma mkdir_exist_ok_browser: "mkdir_exist_ok p s = (r, s') \<Longrightarrow> browser s' = browser s"
  by (auto simp: mkdir_exist_ok_def split: prod.splits option.splits if_splits
      dest: os_mkdir_browser)

lemma mkdir_parents_browser: "mkdir_parents p s = (r, s') \<Longrightarrow> browser s' = browser s"
proof (induction p s arbitrary: r s' rule: mkdir_parents.induct)
  case (1 p s)
  obtain r1 s1 where o: "os_mkdir p s = (r1, s1)" by (cases "os_mkdir p s")
  note b1 = os_mkdir_browser [OF o]
  show ?case
  proof (cases r1)
    case None
    with o "1.prems" b1 show ?thesis by (simp add: mkdir_parents.simps [of p s])
  next
    case (Some err)
    show ?thesis
    proof (cases "is_FileNotFoundError err \<and> parent p \<noteq> p")
      case False
      with o Some "1.prems" b1 show ?thesis
        by (auto simp: mkdir_parents.simps [of p s] split: if_splits)
    next
      case True
      obtain r2 s2 where m: "mkdir_parents (parent p) s1 = (r2, s2)"
        by (cases "mkdir_parents (parent p) s1")
      from True have "is_FileNotFoundError err" "parent p \<noteq> p" by simp_all
      from "1.IH" [OF o [symmetric] Some this m] b1 have b2: "browser s2 = browser s" by simp
      from o Some True m "1.prems" b2 show ?thesis
        by (auto simp: mkdir_parents.simps [of p s] split: option.splits
            dest: mkdir_exist_ok_browser)
    qed
  qed
qed

lemma browser_rmtree [simp]: "browser (rmtree p s) = browser s"
  by (simp add: rmtree_def split: sum.splits)

lemma open_w_browser: "open_w p s = Inr (f, s') \<Longrightarrow> browser s' = browser s"
  by (drule open_w_result(4)) simp

lemma store_sitemap_browser: "store_sitemap p urls s = (r, s') \<Longrightarrow> browser s' = browser s"
  by (auto simp: store_sitemap_def split: sum.splits dest: open_w_browser)

lemma clear_dirs_browser: "clear_dirs d opts s = (r, s') \<Longrightarrow> browser s' = browser s"
proof (induction opts arbitrary: s)
  case Nil
  then show ?case by simp
next
  case (Cons x opts)
  let ?b = "truediv d (option_value x)"
  obtain r1 s1 where m: "mkdir_parents ?b (rmtree ?b s) = (r1, s1)"
    by (cases "mkdir_parents ?b (rmtree ?b s)")
  from mkdir_parents_browser [OF m] have b: "browser s1 = browser s" by simp
  show ?case
  proof (cases r1)
    case None
    with m Cons.prems have "clear_dirs d opts s1 = (r, s')" by (simp add: Let_def)
    from Cons.IH [OF this] b show ?thesis by simp
  next
    case (Some err)
    with m Cons.prems b show ?thesis by (simp add: Let_def)
  qed
qed

lemma write_outputs_browser:
  "write_outputs e d u l c opts s = (r, s') \<Longrightarrow> browser s' = browser s"
proof (induction opts arbitrary: s)
  case Nil
  then show ?case by simp
next
  case (Cons x opts)
  let ?p = "make_file_path u l (truediv d (option_value x)) x"
  show ?case
  proof (cases "open_w ?p s")
    case (Inl err)
    with Cons.prems show ?thesis by (simp add: Let_def)
  next
    case (Inr fs)
    obtain f s1 where fs: "fs = (f, s1)" by (cases fs)
    from Inr fs have b: "browser s1 = browser s" by (simp add: open_w_browser)
    show ?thesis
    proof (cases "convert_to e c (Member x)")
      case (Inl err)
      with Inr fs Cons.prems b show ?thesis by (simp add: Let_def)
    next
      case (Inr data)
      with \<open>open_w ?p s = Inr fs\<close> fs Cons.prems
      have "write_outputs e d u l c opts (file_write f data s1) = (r, s')"
        by (simp add: Let_def)
      from Cons.IH [OF this] b show ?thesis by simp
    qed
  qed
qed

lemma scrape_loop_browser:
  "scrape_loop e a d m urls results s = (r, res, s') \<Longrightarrow> browser s' = browser s"
proof (induction urls arbitrary: results s)
  case Nil
  then show ?case by simp
next
  case (Cons u urls)
  let ?s1 = "print (''Scraping '' @ u) s"
  show ?case
  proof (cases "if paid a then scrape_article_selenium e u
      else scrape_article_requests e u TIMEOUT_SECONDS")
    case (Inl err)
    with Cons.prems show ?thesis by (auto simp: Let_def)
  next
    case (Inr content)
    show ?thesis
    proof (cases "content = []")
      case True
      with Inr Cons.prems
      have "scrape_loop e a d m urls results
          (print (''No content found for '' @ u @ '', skipping.'') ?s1) = (r, res, s')"
        by (simp add: Let_def)
      from Cons.IH [OF this] show ?thesis by simp
    next
      case False
      let ?l = "case m u of None \<Rightarrow> [] | Some l \<Rightarrow> l"
      obtain r2 s2 where w: "write_outputs e d u ?l content OutputOption_members ?s1 = (r2, s2)"
        by (cases "write_outputs e d u ?l content OutputOption_members ?s1")
      from write_outputs_browser [OF w] have b: "browser s2 = browser s" by simp
      show ?thesis
      proof (cases r2)
        case (Some err)
        with Inr False w Cons.prems b show ?thesis by (auto simp: Let_def)
      next
        case None
        with Inr False w Cons.prems
        have "scrape_loop e a d m urls (results @ [(u, ?l)]) s2 = (r, res, s')"
          by (simp add: Let_def)
        from Cons.IH [OF this] b show ?thesis by simp
      qed
    qed
  qed
qed

lemma selenium_login_browserD:
  "selenium_login e s = (r, s') \<Longrightarrow>
     (r = None \<longrightarrow> browser s' = Active) \<and> (browser s' = Active \<or> browser s' = browser s)"
  by (auto simp: selenium_login_def print_def split: option.splits sum.splits)

lemma files_selenium_login [simp]: "files (snd (selenium_login e s)) = files s"
  and dirs_selenium_login [simp]: "dirs (snd (selenium_login e s)) = dirs s"
  by (simp_all add: selenium_login_def split: option.splits sum.splits)

lemmas browserD = mkdir_parents_browser store_sitemap_browser clear_dirs_browser
  scrape_loop_browser open_w_browser

section \<open>Conversion\<close>

text \<open>
  Claim C9. Converting a content string to the HTML option returns the string itself, and
  an argument that is not a member of the enumeration raises \<open>ValueError\<close>.
\<close>

theorem convert_to_html_verbatim:
  "convert_to e html_content (Member HTML) = Inr html_content
   \<and> convert_to e html_content (Other v) = Inl (ValueError (''Unsupported output option: '' @ v))"
  by simp

section \<open>The list of URLs\<close>

text \<open>
  Claim C10. When the file can be opened (the path leads to a location that is not a
  directory, in a directory that exists), \<open>store_sitemap\<close> returns and the file holds each
  URL followed by a newline, in the order of the list; so every run that stores the same
  list, from whatever state, leaves the same content.
\<close>

theorem store_sitemap_content:
  assumes "resolve s p = Inr f" and "f \<notin> dirs s" and "butlast f \<in> dirs s"
  shows "\<exists>s'. store_sitemap p urls s = (None, s')
    \<and> read_file s' p = Some (concat (map (\<lambda>u. u @ [CHR 0x0A]) urls))
    \<and> (\<forall>t t'. store_sitemap p urls t = (None, t') \<longrightarrow> read_file t' p = read_file s' p)"
proof -
  from open_w_opens [OF assms] obtain s' where run: "store_sitemap p urls s = (None, s')"
    by (simp add: store_sitemap_def)
  from store_sitemap_written [OF run] store_sitemap_written [of p urls] run
  show ?thesis by simp
qed

section \<open>The default output folder, and the release of the session\<close>

text \<open>
  Claim C3. When the output argument is \<open>"."\<close>, the run ends with an exception, with an
  empty list of results, and the files and directories are as they were: neither
  \<open>urls.txt\<close> nor an article file is written. When the login (in a paid run) and the
  retrieval of the sitemap succeed, the exception is the \<open>UnboundLocalError\<close> of reading
  \<open>output_dir\<close>, which was never bound.
\<close>

theorem main_default_output_fails:
  assumes "output_folder a = ''.''"
  shows "(\<exists>err. fst (main e a s0) = Some err)
    \<and> fst (snd (main e a s0)) = []
    \<and> files (snd (snd (main e a s0))) = files s0
    \<and> dirs (snd (snd (main e a s0))) = dirs s0
    \<and> ((paid a \<longrightarrow>
          fst (selenium_login e (print ''Paid mode enabled. Manual login required.'' s0)) = None)
        \<and> (\<exists>r. get_article_urls_and_lastmod e
              (rstrip (CHR ''/'') (url a) @ ''/'' @ lstrip (CHR ''/'') (sitemap a))
              TIMEOUT_SECONDS = Inr r)
        \<longrightarrow> fst (main e a s0) = Some (UnboundLocalError ''output_dir''))"
proof (cases "paid a")
  case True
  let ?s1 = "print ''Paid mode enabled. Manual login required.'' s0"
  obtain r s2 where l: "selenium_login e ?s1 = (r, s2)" by (cases "selenium_login e ?s1")
  have f: "files s2 = files s0" "dirs s2 = dirs s0"
    using arg_cong [OF l, of "\<lambda>x. files (snd x)"] arg_cong [OF l, of "\<lambda>x. dirs (snd x)"]
    by simp_all
  show ?thesis
  proof (cases r)
    case None
    with assms True l f show ?thesis
      by (auto simp: main_def Let_def split: sum.splits prod.splits)
  next
    case (Some err)
    with assms True l f show ?thesis
      by (simp add: main_def Let_def)
  qed
next
  case False
  with assms show ?thesis
    by (auto simp: main_def Let_def split: sum.splits prod.splits)
qed

text \<open>
  Claim C4, amended. In a paid run that starts with no browser, the session is released
  at the end exactly when the run completes without an exception.
\<close>

theorem session_released_iff_completes:
  assumes "paid a" and "browser s0 = NotStarted"
  shows "(browser (snd (snd (main e a s0))) = Released) = (fst (main e a s0) = None)"
proof -
  let ?d = "if output_folder a \<noteq> ''.'' then Some (Path (output_folder a)) else None"
  obtain r1 s1 where m1: "(case ?d of None \<Rightarrow> (None, s0) | Some d \<Rightarrow> mkdir_parents d s0) = (r1, s1)"
    by (cases "case ?d of None \<Rightarrow> (None, s0) | Some d \<Rightarrow> mkdir_parents d s0")
  then have b1: "browser s1 = NotStarted"
    using assms(2) by (auto split: if_splits dest: mkdir_parents_browser)
  obtain r2 s2 where m2:
    "selenium_login e (print ''Paid mode enabled. Manual login required.'' s1) = (r2, s2)"
    by (cases "selenium_login e (print ''Paid mode enabled. Manual login required.'' s1)")
  from selenium_login_browserD [OF m2] b1
  have b2: "r2 = None \<longrightarrow> browser s2 = Active" "browser s2 \<noteq> Released"
    by auto
  show ?thesis
  proof (cases r1)
    case (Some err)
    with m1 b1 show ?thesis by (simp add: main_def Let_def)
  next
    case None
    note r1 = None
    show ?thesis
    proof (cases r2)
      case (Some err)
      with m1 r1 m2 b2 assms(1) show ?thesis by (simp add: main_def Let_def)
    next
      case None
      with b2 have act: "browser s2 = Active" by simp
      from m1 r1 m2 None assms(1) act show ?thesis
        by (auto simp: main_def Let_def driver_quit_def
            split: sum.splits prod.splits option.splits dest!: browserD)
    qed
  qed
qed

section \<open>Nothing is removed while the articles are written\<close>

lemma keeps_refl [simp]: "keeps s s"
  by (simp add: keeps_def)

lemma keeps_trans: "keeps s t \<Longrightarrow> keeps t u \<Longrightarrow> keeps s u"
  unfolding keeps_def by (metis subset_trans)

lemma keeps_print [simp]: "keeps s (print line s)"
  by (simp add: keeps_def)

lemma keeps_file_write [simp]: "keeps s (file_write f d s)"
  by (auto simp: keeps_def file_write_files)

lemma keeps_browser [simp]: "keeps s (s\<lparr>browser := b\<rparr>)"
  by (simp add: keeps_def)

lemma keeps_open_w: "open_w p s = Inr (f, s') \<Longrightarrow> keeps s s'"
  by (drule open_w_result(4)) (auto simp: keeps_def)

lemma keeps_read_file: "keeps s s' \<Longrightarrow> read_file s p \<noteq> None \<Longrightarrow> read_file s' p \<noteq> None"
proof -
  assume k: "keeps s s'" and r: "read_file s p \<noteq> None"
  from r obtain f where f: "resolve s p = Inr f" "files s f \<noteq> None"
    by (auto simp: read_file_def split: sum.splits)
  from k have "dirs s' = dirs s" "cwd s' = cwd s" by (simp_all add: keeps_def)
  from resolve_same_dirs [OF this f(1)] f(2) k show ?thesis
    by (auto simp: read_file_def keeps_def)
qed

lemma write_outputs_keeps:
  "write_outputs e d u l c opts s = (r, s') \<Longrightarrow> keeps s s'"
proof (induction opts arbitrary: s)
  case Nil
  then show ?case by simp
next
  case (Cons x opts)
  let ?p = "make_file_path u l (truediv d (option_value x)) x"
  show ?case
  proof (cases "open_w ?p s")
    case (Inl err)
    with Cons.prems show ?thesis by (simp add: Let_def)
  next
    case (Inr fs)
    obtain f s1 where fs: "fs = (f, s1)" by (cases fs)
    with Inr have o: "open_w ?p s = Inr (f, s1)" by simp
    note k1 = keeps_open_w [OF o]
    show ?thesis
    proof (cases "convert_to e c (Member x)")
      case (Inl err)
      with o Cons.prems k1 show ?thesis by (simp add: Let_def)
    next
      case (Inr data)
      with o Cons.prems
      have "write_outputs e d u l c opts (file_write f data s1) = (r, s')"
        by (simp add: Let_def)
      from Cons.IH [OF this] have "keeps (file_write f data s1) s'" .
      with k1 keeps_file_write [of s1 f data] show ?thesis
        by (blast intro: keeps_trans)
    qed
  qed
qed

lemma write_outputs_written:
  "write_outputs e d u l c opts s = (None, s') \<Longrightarrow> x \<in> set opts \<Longrightarrow>
     read_file s' (make_file_path u l (truediv d (option_value x)) x) \<noteq> None"
proof (induction opts arbitrary: s)
  case Nil
  then show ?case by simp
next
  case (Cons y opts)
  let ?p = "make_file_path u l (truediv d (option_value y)) y"
  from Cons.prems(1) obtain f s1 where o: "open_w ?p s = Inr (f, s1)"
    by (cases "open_w ?p s") (auto simp: Let_def)
  from Cons.prems(1) o obtain data where c: "convert_to e c (Member y) = Inr data"
    by (cases "convert_to e c (Member y)") (simp_all add: Let_def)
  let ?s2 = "file_write f data s1"
  from Cons.prems(1) o c
  have rest: "write_outputs e d u l c opts ?s2 = (None, s')"
    by (simp add: Let_def)
  show ?case
  proof (cases "x = y")
    case True
    note r = open_w_result [OF o]
    from r(4) have "dirs ?s2 = dirs s" "cwd ?s2 = cwd s" by simp_all
    from resolve_same_dirs [OF this r(1)] have "read_file ?s2 ?p \<noteq> None"
      by (simp add: read_file_def files_file_write)
    with keeps_read_file [OF write_outputs_keeps [OF rest], of ?p] True show ?thesis
      by simp
  next
    case False
    with Cons.prems(2) have "x \<in> set opts" by simp
    from Cons.IH [OF rest this] show ?thesis .
  qed
qed

lemma OutputOption_members_all: "x \<in> set OutputOption_members"
  by (cases x) (simp_all add: OutputOption_members_def)

lemma planned_Nil: "planned_files_exist d [] s"
  by (simp add: planned_files_exist_def)

lemma planned_keeps:
  assumes "planned_files_exist d results s" and "keeps s s'"
  shows "planned_files_exist d results s'"
proof -
  have "read_file s' (make_file_path u l (truediv d (option_value x)) x) \<noteq> None"
    if "(u, l) \<in> set results" for u l x
  proof -
    from assms(1) that
    have "read_file s (make_file_path u l (truediv d (option_value x)) x) \<noteq> None"
      unfolding planned_files_exist_def by blast
    with assms(2) show ?thesis by (rule keeps_read_file)
  qed
  then show ?thesis unfolding planned_files_exist_def by blast
qed

lemma planned_snoc:
  assumes "planned_files_exist d results s"
    and "\<And>x. read_file s (make_file_path u l (truediv d (option_value x)) x) \<noteq> None"
  shows "planned_files_exist d (results @ [(u, l)]) s"
  using assms unfolding planned_files_exist_def by auto

lemma scrape_loop_planned:
  assumes "scrape_loop e a d m urls results s = (r, results', s')"
    and "planned_files_exist d results s"
  shows "planned_files_exist d results' s'"
  using assms
proof (induction urls arbitrary: results s)
  case Nil
  then show ?case by simp
next
  case (Cons u urls)
  let ?s1 = "print (''Scraping '' @ u) s"
  have p1: "planned_files_exist d results ?s1"
    using Cons.prems(2) by (rule planned_keeps) simp
  show ?case
  proof (cases "if paid a then scrape_article_selenium e u
      else scrape_article_requests e u TIMEOUT_SECONDS")
    case (Inl err)
    with Cons.prems(1) have "results' = results" "s' = ?s1"
      by (simp_all add: Let_def)
    with p1 show ?thesis by simp
  next
    case (Inr content)
    show ?thesis
    proof (cases "content = []")
      case True
      let ?s2 = "print (''No content found for '' @ u @ '', skipping.'') ?s1"
      from Cons.prems(1) Inr True
      have "scrape_loop e a d m urls results ?s2 = (r, results', s')"
        by (simp add: Let_def)
      moreover have "planned_files_exist d results ?s2"
        using p1 by (rule planned_keeps) simp
      ultimately show ?thesis by (rule Cons.IH)
    next
      case False
      let ?l = "case m u of None \<Rightarrow> [] | Some l \<Rightarrow> l"
      obtain r2 s2 where w: "write_outputs e d u ?l content OutputOption_members ?s1 = (r2, s2)"
        by (cases "write_outputs e d u ?l content OutputOption_members ?s1")
      have p2: "planned_files_exist d results s2"
        using p1 write_outputs_keeps [OF w] by (rule planned_keeps)
      show ?thesis
      proof (cases r2)
        case (Some err)
        with Cons.prems(1) Inr False w have "results' = results" "s' = s2"
          by (simp_all add: Let_def)
        with p2 show ?thesis by simp
      next
        case None
        with Cons.prems(1) Inr False w
        have "scrape_loop e a d m urls (results @ [(u, ?l)]) s2 = (r, results', s')"
          by (simp add: Let_def)
        moreover have "planned_files_exist d (results @ [(u, ?l)]) s2"
          using p2 write_outputs_written [OF w [unfolded None] OutputOption_members_all]
          by (rule planned_snoc)
        ultimately show ?thesis by (rule Cons.IH)
      qed
    qed
  qed
qed

lemma main_planned:
  assumes "main e a s0 = (r, res, s')"
  shows "planned_files_exist (Path (output_folder a)) res s'"
proof -
  let ?d = "Path (output_folder a)"
  have loop: "planned_files_exist ?d results' t'"
    if "scrape_loop e a ?d m urls [] t = (r, results', t')" for m urls t r results' t'
    using that planned_Nil by (rule scrape_loop_planned)
  have fin: "planned_files_exist ?d results' s8"
    if "scrape_loop e a ?d m urls [] t = (r, results', t')" and "open_w p t' = Inr (f, s8)"
    for m urls t r results' t' p f s8
    using loop [OF that(1)] keeps_open_w [OF that(2)] by (rule planned_keeps)
  have fin2: "planned_files_exist ?d results' (t\<lparr>browser := b\<rparr>)"
    if "planned_files_exist ?d results' t" for results' t b
    using that by (rule planned_keeps) simp
  have fin3: "planned_files_exist ?d results' (print x (file_write f y s8))"
    if "planned_files_exist ?d results' s8" for results' s8 f x y
    using that by (rule planned_keeps) (blast intro: keeps_trans keeps_file_write keeps_print)
  from assms show ?thesis
    unfolding main_def Let_def driver_quit_def
    by (auto split: sum.splits prod.splits option.splits if_splits
        simp: planned_Nil intro!: fin2 fin3 elim: loop fin)
qed

section \<open>Where the planned paths lead\<close>

lemma walk_append:
  "walk s p cur (cs @ ds) =
     (case walk s p cur cs of Inl err \<Rightarrow> Inl err | Inr b \<Rightarrow> walk s p b ds)"
  by (induction cs arbitrary: cur) simp_all

lemma walk_Inr_path: "walk s p cur cs = Inr f \<Longrightarrow> walk s q cur cs = Inr f"
  by (induction cs arbitrary: cur) (auto split: if_splits)

lemma resolve_child:
  assumes "resolve s (PosixPath r (cs @ [n])) = Inr f" and "n \<noteq> ''..''"
  shows "\<exists>b. resolve s (PosixPath r cs) = Inr b \<and> b \<in> dirs s \<and> f = b @ [n]"
proof -
  let ?p = "PosixPath r (cs @ [n])"
  let ?start = "if r = [] then cwd s else []"
  from assms(1) have w: "walk s ?p ?start (cs @ [n]) = Inr f"
    by (simp add: resolve_def)
  then obtain b where b: "walk s ?p ?start cs = Inr b" and l: "walk s ?p b [n] = Inr f"
    by (auto simp: walk_append split: sum.splits)
  from l assms(2) have "b \<in> dirs s" "f = b @ [n]"
    by (auto split: if_splits)
  with walk_Inr_path [OF b, of "PosixPath r cs"] show ?thesis
    by (simp add: resolve_def)
qed









text \<open>
  With no slash in the date part the planned path is the base directory and one name, so
  the file it leads to is an entry of the directory the base directory leads to.
\<close>

lemma make_file_path_in_base:
  assumes "resolve s (make_file_path u l base opt) = Inr f"
    and "CHR ''/'' \<notin> set (date_part l)"
  shows "\<exists>b. resolve s base = Inr b \<and> b \<in> dirs s
    \<and> f = b @ [(if date_part l \<noteq> [] then date_part l @ ''_'' else []) @
        url_base_name u @ ''.'' @ option_value opt]"
proof -
  let ?n = "(if date_part l \<noteq> [] then date_part l @ ''_'' else []) @
        url_base_name u @ ''.'' @ option_value opt"
  have n: "?n \<noteq> ''..''" by (cases opt) (auto simp: append_eq_Cons_conv Cons_eq_append_conv)
  from assms have "resolve s (PosixPath (root base) (parts base @ [?n])) = Inr f"
    by (simp add: make_file_path_plain)
  from resolve_child [OF this n] show ?thesis by simp
qed

section \<open>No step before the summary writes a file named like it\<close>

lemma summary_kept_refl [simp]: "summary_kept s s"
  by (simp add: summary_kept_def)



lemma summary_kept_print [simp]: "summary_kept s (print line s)"
  by (simp add: summary_kept_def)












section \<open>The example runs\<close>

lemma sitemap_url_example:
  "rstrip (CHR ''/'') (url (example_args p out)) @ CHR ''/'' # lstrip (CHR ''/'') (sitemap (example_args p out))
    = ''https://n.example/sitemap.xml''"
  by (simp add: example_args_def rstrip_def lstrip_def)

lemma example_entries:
  "sitemap_entries example_sitemap =
    [(''https://n.example/p/a'', ''2024-03-05T12:00:00Z''),
     (''https://n.example/p/b'', []),
     (''https://n.example/p/c/'', ''2024-03-07T09:30:00Z'')]"
  by (simp add: sitemap_entries_def sitemap_entry_def example_sitemap_def find_all_def find_tag_def)

lemma abs_entries:
  "sitemap_entries abs_sitemap = [(''https://n.example/p/a'', ''/absT1'')]"
  by (simp add: sitemap_entries_def sitemap_entry_def abs_sitemap_def find_all_def find_tag_def)

lemma Path_out: "Path ''out'' = PosixPath [] [''out'']"
  by (simp add: Path_def splitroot_def)

lemma example_state_sel:
  "cwd example_state = [''work'']" "dirs example_state = {[], [''work'']}"
  "files example_state = Map.empty"
  "browser example_state = NotStarted" "stdout example_state = []"
  by (simp_all add: example_state_def)

lemma resolve_out:
  assumes "cwd s = [''work'']" and "[''work''] \<in> dirs s" and "[''work'', ''out''] \<in> dirs s"
  shows "resolve s (PosixPath [] [''out'']) = Inr [''work'', ''out'']"
    and "resolve s (PosixPath [] [''out'', n]) = Inr (if n = ''..'' then [''work''] else [''work'', ''out'', n])"
  using assms by (simp_all add: resolve_def)

lemma resolve_out2:
  assumes "cwd s = [''work'']" and "[''work''] \<in> dirs s" and "[''work'', ''out''] \<in> dirs s"
    and "[''work'', ''out'', d] \<in> dirs s" and "d \<noteq> ''..''" and "n \<noteq> ''..''"
  shows "resolve s (PosixPath [] [''out'', d, n]) = Inr [''work'', ''out'', d, n]"
  using assms by (simp add: resolve_def)

lemma resolve_root:
  assumes "[] \<in> dirs s" and "n \<noteq> ''..''"
  shows "resolve s (PosixPath ''/'' [n]) = Inr [n]"
  using assms by (simp add: resolve_def)

lemma mkdir_out:
  "mkdir_parents (PosixPath [] [''out'']) example_state =
     (None, example_state\<lparr>dirs := {[], [''work''], [''work'', ''out'']}\<rparr>)"
proof -
  have "{[''work'', ''out''], [], [''work'']} = {[], [''work''], [''work'', ''out'']}"
    by blast
  then show ?thesis
    by (subst mkdir_parents.simps) (simp add: os_mkdir_def resolve_def example_state_def)
qed

lemma sitemap_refused:
  "get_article_urls_and_lastmod (example_env fetch_no_sitemap) ''https://n.example/sitemap.xml'' t
     = Inl (RequestException ''refused'')"
  by (simp add: get_article_urls_and_lastmod_def example_env_def fetch_no_sitemap_def)

lemma login_example:
  "selenium_login (example_env f) s =
     (case f ''https://substack.com/sign-in'' of
        Inl err \<Rightarrow> (Some err, s\<lparr>browser := Active\<rparr>)
      | Inr page \<Rightarrow> (None, print ''Continuing with scraping...'' (s\<lparr>browser := Active\<rparr>)))"
  by (simp add: selenium_login_def example_env_def)

lemma fetch_no_sitemap_signin: "fetch_no_sitemap ''https://substack.com/sign-in'' = Inr ''sign-in''"
  by (simp add: fetch_no_sitemap_def fetch_ok_def url_base_name_eq spec_last_segment_def)

lemma string_of_nat_small: "n < 10 \<Longrightarrow> string_of_nat n = [''0123456789'' ! n]"
  by (simp add: string_of_nat.simps)

lemma example_env_sel:
  "requests_get (example_env f) u t = f u"
  "driver_get (example_env f) = f"
  "bs_lxml (example_env f) = example_page"
  "bs_xml (example_env f) c = (if c = ''ABS'' then abs_sitemap else example_sitemap)"
  "tag_str (example_env f) n = ''<div>'' @ get_text n @ ''</div>''"
  "markdownify (example_env f) h = ''md '' @ h"
  "json_dumps (example_env f) rs = concat (map (\<lambda>(u, l). u @ '' '' @ l @ '';'') rs)"
  "chrome (example_env f) = None"
  by (simp_all add: example_env_def)

lemma sitemap_example:
  assumes "f ''https://n.example/sitemap.xml'' = Inr ''sitemap.xml''"
  shows "get_article_urls_and_lastmod (example_env f) ''https://n.example/sitemap.xml'' t =
    Inr ([''https://n.example/p/a'', ''https://n.example/p/b'', ''https://n.example/p/c/''],
         [''https://n.example/p/a'' \<mapsto> ''2024-03-05T12:00:00Z'',
          ''https://n.example/p/b'' \<mapsto> [],
          ''https://n.example/p/c/'' \<mapsto> ''2024-03-07T09:30:00Z''])"
proof -
  have "foldl sitemap_step ([], Map.empty) (find_all ''url'' example_sitemap) =
     ([] @ map fst (sitemap_entries example_sitemap),
      Map.empty ++ map_of (rev (sitemap_entries example_sitemap)))"
    unfolding sitemap_entries_def by (rule foldl_sitemap_step)
  then show ?thesis
    using assms
    by (simp add: get_article_urls_and_lastmod_def example_env_sel example_entries)
qed

lemma sitemap_abs:
  "get_article_urls_and_lastmod (example_env fetch_abs) ''https://n.example/sitemap.xml'' t =
    Inr ([''https://n.example/p/a''], [''https://n.example/p/a'' \<mapsto> ''/absT1''])"
proof -
  have "foldl sitemap_step ([], Map.empty) (find_all ''url'' abs_sitemap) =
     ([] @ map fst (sitemap_entries abs_sitemap),
      Map.empty ++ map_of (rev (sitemap_entries abs_sitemap)))"
    unfolding sitemap_entries_def by (rule foldl_sitemap_step)
  then show ?thesis
    by (simp add: get_article_urls_and_lastmod_def example_env_sel abs_entries fetch_abs_def)
qed

lemma paths_out:
  "truediv (PosixPath [] [''out'']) ''urls.txt'' = PosixPath [] [''out'', ''urls.txt'']"
  "truediv (PosixPath [] [''out'']) ''summary.json'' = PosixPath [] [''out'', ''summary.json'']"
  "truediv (PosixPath [] [''out'']) ''html'' = PosixPath [] [''out'', ''html'']"
  "truediv (PosixPath [] [''out'']) ''md'' = PosixPath [] [''out'', ''md'']"
  by (simp_all add: truediv_single)

lemma store_example:
  assumes "cwd s = [''work'']" and "dirs s = {[], [''work''], [''work'', ''out'']}"
    and "files s = Map.empty"
  shows "store_sitemap (PosixPath [] [''out'', ''urls.txt'']) urls s =
    (None, s\<lparr>files := [[''work'', ''out'', ''urls.txt''] \<mapsto>
                 concat (map (\<lambda>u. u @ [CHR 0x0A]) urls)],
      stdout := stdout s @ [''Saved URLs to out/urls.txt'']\<rparr>)"
proof -
  let ?f = "[''work'', ''out'', ''urls.txt'']"
  let ?s1 = "s\<lparr>files := (files s)(?f \<mapsto> [])\<rparr>"
  have r: "resolve s (PosixPath [] [''out'', ''urls.txt'']) = Inr ?f"
    using assms(1,2) by (simp add: resolve_out)
  have o: "open_w (PosixPath [] [''out'', ''urls.txt'']) s = Inr (?f, ?s1)"
    using assms(2) by (intro open_w_opens r) simp_all
  have step: "file_write ?f d t = t\<lparr>files := (files t)(?f \<mapsto> c @ d)\<rparr>"
    if "files t ?f = Some c" for t :: state and c d
    using that by (simp add: file_write_def)
  have w: "foldl (\<lambda>t url. file_write ?f (url @ [CHR 0x0A]) t) t urls
      = t\<lparr>files := (files t)(?f \<mapsto> c @ concat (map (\<lambda>u. u @ [CHR 0x0A]) urls))\<rparr>"
    if "files t ?f = Some c" for t :: state and c
    using that
  proof (induction urls arbitrary: t c)
    case Nil
    then have "(files t)(?f \<mapsto> c) = files t" by (simp add: fun_upd_idem)
    then show ?case by simp
  next
    case (Cons u urls)
    let ?t = "t\<lparr>files := (files t)(?f \<mapsto> c @ u @ [CHR 0x0A])\<rparr>"
    have "foldl (\<lambda>t url. file_write ?f (url @ [CHR 0x0A]) t) t (u # urls)
        = foldl (\<lambda>t url. file_write ?f (url @ [CHR 0x0A]) t) ?t urls"
      by (simp only: foldl_Cons step [OF Cons.prems])
    also have "\<dots> = ?t\<lparr>files := (files ?t)(?f \<mapsto>
        (c @ u @ [CHR 0x0A]) @ concat (map (\<lambda>u. u @ [CHR 0x0A]) urls))\<rparr>"
      by (rule Cons.IH) simp
    also have "\<dots> = t\<lparr>files := (files t)(?f \<mapsto>
        c @ concat (map (\<lambda>u. u @ [CHR 0x0A]) (u # urls)))\<rparr>"
      by simp
    finally show ?case .
  qed
  from o w [of ?s1 "[]"] assms(3) show ?thesis
    by (simp add: store_sitemap_def print_def path_str_def)
qed

lemma clear_example:
  assumes "cwd s = [''work'']" and "dirs s = {[], [''work''], [''work'', ''out'']}"
    and "files s [''work'', ''out'', ''html''] = None"
    and "files s [''work'', ''out'', ''md''] = None"
  shows "clear_dirs (PosixPath [] [''out'']) OutputOption_members s =
    (None, s\<lparr>dirs := {[], [''work''], [''work'', ''out''],
        [''work'', ''out'', ''html''], [''work'', ''out'', ''md'']}\<rparr>)"
proof -
  let ?h = "PosixPath [] [''out'', ''html'']"
  let ?m = "PosixPath [] [''out'', ''md'']"
  let ?s1 = "s\<lparr>dirs := {[], [''work''], [''work'', ''out''], [''work'', ''out'', ''html'']}\<rparr>"
  let ?s2 = "s\<lparr>dirs := {[], [''work''], [''work'', ''out''],
        [''work'', ''out'', ''html''], [''work'', ''out'', ''md'']}\<rparr>"
  have e1: "{[''work'', ''out'', ''html''], [], [''work''], [''work'', ''out'']}
      = {[], [''work''], [''work'', ''out''], [''work'', ''out'', ''html'']}"
    by blast
  have e2: "{[''work'', ''out'', ''md''], [], [''work''], [''work'', ''out''],
        [''work'', ''out'', ''html'']}
      = {[], [''work''], [''work'', ''out''], [''work'', ''out'', ''html''],
         [''work'', ''out'', ''md'']}"
    by blast
  have r1: "rmtree ?h s = s"
    using assms by (simp add: rmtree_def resolve_out)
  have m1: "mkdir_parents ?h s = (None, ?s1)"
    using assms e1 by (subst mkdir_parents.simps) (simp add: os_mkdir_def resolve_out)
  have r2: "rmtree ?m ?s1 = ?s1"
    using assms by (simp add: rmtree_def resolve_out)
  have m2: "mkdir_parents ?m ?s1 = (None, ?s2)"
    using assms e2 by (subst mkdir_parents.simps) (simp add: os_mkdir_def resolve_out)
  show ?thesis
    by (simp add: OutputOption_members_def paths_out r1 m1 r2 m2 Let_def)
qed

lemma extract_example:
  "extract_article_html (example_env f) (example_page body) =
     (if body = ''EMPTY'' then ''None'' else ''<div>'' @ body @ ''</div>'')"
  by (simp add: extract_article_html_def example_page_def find_class_def example_env_sel)

lemma scrape_example:
  "scrape_article_selenium (example_env f) u =
   (case f u of Inl err \<Rightarrow> Inl err
    | Inr body \<Rightarrow> Inr (if body = ''EMPTY'' then ''None'' else ''<div>'' @ body @ ''</div>''))"
  "scrape_article_requests (example_env f) u t =
   (case f u of Inl err \<Rightarrow> Inl err
    | Inr body \<Rightarrow> Inr (if body = ''EMPTY'' then ''None'' else ''<div>'' @ body @ ''</div>''))"
  by (cases "f u";
    simp add: scrape_article_selenium_def scrape_article_requests_def extract_example
      example_env_sel)+

lemma planned_example:
  "make_file_path ''https://n.example/p/a'' ''2024-03-05T12:00:00Z'' (PosixPath [] [''out'', d]) x
     = PosixPath [] [''out'', d, ''2024-03-05_a.'' @ option_value x]"
  "make_file_path ''https://n.example/p/b'' [] (PosixPath [] [''out'', d]) x
     = PosixPath [] [''out'', d, ''b.'' @ option_value x]"
  "make_file_path ''https://n.example/p/c/'' ''2024-03-07T09:30:00Z'' (PosixPath [] [''out'', d]) x
     = PosixPath [] [''out'', d, ''2024-03-07_c.'' @ option_value x]"
  by (simp_all add: make_file_path_plain date_part_eq url_base_name_eq spec_last_segment_def)

lemma planned_abs:
  "make_file_path ''https://n.example/p/a'' ''/absT1'' base x
     = PosixPath ''/'' [''abs_a.'' @ option_value x]"
  by (cases x)
    (simp_all add: make_file_path_def date_part_eq url_base_name_eq spec_last_segment_def
      truediv_def Path_def splitroot_def)

lemma write_outputs_example:
  assumes "cwd s = [''work'']"
    and "dirs s = {[], [''work''], [''work'', ''out''],
        [''work'', ''out'', ''html''], [''work'', ''out'', ''md'']}"
    and "\<And>d x. make_file_path u l (PosixPath [] [''out'', d]) x
          = PosixPath [] [''out'', d, n @ option_value x]"
  shows "write_outputs (example_env f) (PosixPath [] [''out'']) u l c OutputOption_members s =
    (None, s\<lparr>files := (files s)
        ([''work'', ''out'', ''html'', n @ ''html''] \<mapsto> c,
         [''work'', ''out'', ''md'', n @ ''md''] \<mapsto> ''md '' @ c)\<rparr>)"
proof -
  let ?fh = "[''work'', ''out'', ''html'', n @ ''html'']"
  let ?fm = "[''work'', ''out'', ''md'', n @ ''md'']"
  let ?s1 = "s\<lparr>files := (files s)(?fh \<mapsto> [])\<rparr>"
  let ?s2 = "file_write ?fh c ?s1"
  let ?s3 = "?s2\<lparr>files := (files ?s2)(?fm \<mapsto> [])\<rparr>"
  have nh: "n @ ''html'' \<noteq> ''..''" and nm: "n @ ''md'' \<noteq> ''..''"
    by (simp_all add: append_eq_Cons_conv)
  have rh: "resolve s (PosixPath [] [''out'', ''html'', n @ ''html'']) = Inr ?fh"
    using assms(1,2) nh by (intro resolve_out2) simp_all
  have oh: "open_w (PosixPath [] [''out'', ''html'', n @ ''html'']) s = Inr (?fh, ?s1)"
    using assms(2) by (intro open_w_opens rh) simp_all
  have rm: "resolve ?s2 (PosixPath [] [''out'', ''md'', n @ ''md'']) = Inr ?fm"
    using assms(1,2) nm by (intro resolve_out2) simp_all
  have om: "open_w (PosixPath [] [''out'', ''md'', n @ ''md'']) ?s2 = Inr (?fm, ?s3)"
    using assms(2) by (intro open_w_opens rm) simp_all
  have fin: "file_write ?fm (''md '' @ c) ?s3
      = s\<lparr>files := (files s)(?fh \<mapsto> c, ?fm \<mapsto> ''md '' @ c)\<rparr>"
    by (simp add: file_write_def)
  show ?thesis
    by (simp add: OutputOption_members_def paths_out assms(3) Let_def oh om fin
        convert_to_md_def example_env_sel del: append.simps)
qed

lemma write_outputs_abs:
  assumes "[] \<in> dirs s" and "[''abs_a.html''] \<notin> dirs s" and "[''abs_a.md''] \<notin> dirs s"
  shows "write_outputs (example_env f) d ''https://n.example/p/a'' ''/absT1'' c
      OutputOption_members s =
    (None, s\<lparr>files := (files s)([''abs_a.html''] \<mapsto> c, [''abs_a.md''] \<mapsto> ''md '' @ c)\<rparr>)"
proof -
  let ?fh = "[''abs_a.html'']"
  let ?fm = "[''abs_a.md'']"
  let ?s1 = "s\<lparr>files := (files s)(?fh \<mapsto> [])\<rparr>"
  let ?s2 = "file_write ?fh c ?s1"
  let ?s3 = "?s2\<lparr>files := (files ?s2)(?fm \<mapsto> [])\<rparr>"
  have rh: "resolve s (PosixPath ''/'' [''abs_a.html'']) = Inr ?fh"
    using assms(1) by (intro resolve_root) simp_all
  have oh: "open_w (PosixPath ''/'' [''abs_a.html'']) s = Inr (?fh, ?s1)"
    using assms by (intro open_w_opens rh) simp_all
  have rm: "resolve ?s2 (PosixPath ''/'' [''abs_a.md'']) = Inr ?fm"
    using assms(1) by (intro resolve_root) simp_all
  have om: "open_w (PosixPath ''/'' [''abs_a.md'']) ?s2 = Inr (?fm, ?s3)"
    using assms by (intro open_w_opens rm) simp_all
  have fin: "file_write ?fm (''md '' @ c) ?s3
      = s\<lparr>files := (files s)(?fh \<mapsto> c, ?fm \<mapsto> ''md '' @ c)\<rparr>"
    by (simp add: file_write_def)
  have p: "make_file_path ''https://n.example/p/a'' ''/absT1'' base HTML
        = PosixPath ''/'' [''abs_a.html'']"
      "make_file_path ''https://n.example/p/a'' ''/absT1'' base MD
        = PosixPath ''/'' [''abs_a.md'']" for base
    by (simp_all add: planned_abs)
  show ?thesis
    by (simp add: OutputOption_members_def p Let_def oh om fin
        convert_to_md_def example_env_sel del: append.simps)
qed

text \<open>
  A date part that climbs out of the base directory: the planned path keeps the \<open>..\<close>, and
  it leads to a file in the output folder itself.
\<close>

lemma planned_dotdot:
  "make_file_path ''https://n.example/p/a'' ''../mdT1'' (PosixPath [] [''out'', ''html'']) HTML
     = PosixPath [] [''out'', ''html'', ''..'', ''md_a.html'']"
  by (simp add: make_file_path_def date_part_eq url_base_name_eq spec_last_segment_def
      truediv_def Path_def splitroot_def Let_def)

lemma open_w_dotdot:
  assumes "cwd s = [''work'']"
    and "dirs s = {[], [''work''], [''work'', ''out''],
        [''work'', ''out'', ''html''], [''work'', ''out'', ''md'']}"
  shows "open_w (PosixPath [] [''out'', ''html'', ''..'', ''md_a.html'']) s
    = Inr ([''work'', ''out'', ''md_a.html''],
           s\<lparr>files := (files s)([''work'', ''out'', ''md_a.html''] \<mapsto> [])\<rparr>)"
  using assms by (simp add: open_w_def resolve_def)

lemma summary_example:
  assumes "cwd s = [''work'']" and "[''work''] \<in> dirs s" and "[''work'', ''out''] \<in> dirs s"
    and "[''work'', ''out'', ''summary.json''] \<notin> dirs s"
  shows "open_w (PosixPath [] [''out'', ''summary.json'']) s =
    Inr ([''work'', ''out'', ''summary.json''],
         s\<lparr>files := (files s)([''work'', ''out'', ''summary.json''] \<mapsto> [])\<rparr>)"
  using assms by (intro open_w_opens) (simp_all add: resolve_out)

lemma fetch_sitemap:
  "fetch_ok ''https://n.example/sitemap.xml'' = Inr ''sitemap.xml''"
  "fetch_second_raises ''https://n.example/sitemap.xml'' = Inr ''sitemap.xml''"
  "fetch_second_empty ''https://n.example/sitemap.xml'' = Inr ''sitemap.xml''"
  by (simp_all add: fetch_ok_def fetch_second_raises_def fetch_second_empty_def
      url_base_name_eq spec_last_segment_def)

lemmas example_run =
  main_def Let_def example_args_def rstrip_def lstrip_def Path_out mkdir_out
  login_example TIMEOUT_SECONDS_def string_of_nat_small store_example clear_example
  paths_out print_def example_state_sel scrape_example
  write_outputs_example planned_example summary_example
  fetch_ok_def fetch_second_raises_def fetch_second_empty_def fetch_abs_def url_base_name_eq
  spec_last_segment_def

lemma run_second_raises:
  "fst (main (example_env fetch_second_raises) (example_args p ''out'') example_state)
     = Some (RequestException ''timed out'')"
  "fst (snd (main (example_env fetch_second_raises) (example_args p ''out'') example_state))
     = [(''https://n.example/p/a'', ''2024-03-05T12:00:00Z'')]"
  "files (snd (snd (main (example_env fetch_second_raises) (example_args p ''out'')
       example_state))) =
     [[''work'', ''out'', ''urls.txt''] \<mapsto>
        ''https://n.example/p/a'' @ [CHR 0x0A] @ ''https://n.example/p/b'' @ [CHR 0x0A]
          @ ''https://n.example/p/c/'' @ [CHR 0x0A],
      [''work'', ''out'', ''html'', ''2024-03-05_a.html''] \<mapsto> ''<div>a</div>'',
      [''work'', ''out'', ''md'', ''2024-03-05_a.md''] \<mapsto> ''md <div>a</div>'']"
  "dirs (snd (snd (main (example_env fetch_second_raises) (example_args p ''out'')
       example_state))) =
     {[], [''work''], [''work'', ''out''], [''work'', ''out'', ''html''], [''work'', ''out'', ''md'']}"
  "cwd (snd (snd (main (example_env fetch_second_raises) (example_args p ''out'')
       example_state))) = [''work'']"
  using sitemap_example [of fetch_second_raises, OF fetch_sitemap(2)]
  by (simp_all add: example_run)

lemma run_second_empty:
  "fst (main (example_env fetch_second_empty) (example_args p ''out'') example_state) = None"
  "fst (snd (main (example_env fetch_second_empty) (example_args p ''out'') example_state))
     = [(''https://n.example/p/a'', ''2024-03-05T12:00:00Z''),
        (''https://n.example/p/b'', []),
        (''https://n.example/p/c/'', ''2024-03-07T09:30:00Z'')]"
  "files (snd (snd (main (example_env fetch_second_empty) (example_args p ''out'')
       example_state))) [''work'', ''out'', ''html'', ''b.html''] = Some ''None''"
  "files (snd (snd (main (example_env fetch_second_empty) (example_args p ''out'')
       example_state))) [''work'', ''out'', ''md'', ''b.md''] = Some ''md None''"
  "browser (snd (snd (main (example_env fetch_second_empty) (example_args p ''out'')
       example_state))) = (if p then Released else NotStarted)"
  "dirs (snd (snd (main (example_env fetch_second_empty) (example_args p ''out'')
       example_state))) =
     {[], [''work''], [''work'', ''out''], [''work'', ''out'', ''html''], [''work'', ''out'', ''md'']}"
  "cwd (snd (snd (main (example_env fetch_second_empty) (example_args p ''out'')
       example_state))) = [''work'']"
  using sitemap_example [of fetch_second_empty, OF fetch_sitemap(3)]
  by (simp_all add: example_run file_write_def driver_quit_def)

lemma run_abs:
  "fst (main (example_env fetch_abs) (example_args p ''out'') example_state) = None"
  "fst (snd (main (example_env fetch_abs) (example_args p ''out'') example_state))
     = [(''https://n.example/p/a'', ''/absT1'')]"
  "files (snd (snd (main (example_env fetch_abs) (example_args p ''out'') example_state))) =
     [[''work'', ''out'', ''urls.txt''] \<mapsto> ''https://n.example/p/a'' @ [CHR 0x0A],
      [''abs_a.html''] \<mapsto> ''<div>a</div>'',
      [''abs_a.md''] \<mapsto> ''md <div>a</div>'',
      [''work'', ''out'', ''summary.json''] \<mapsto> ''https://n.example/p/a /absT1;'']"
  "dirs (snd (snd (main (example_env fetch_abs) (example_args p ''out'') example_state))) =
     {[], [''work''], [''work'', ''out''], [''work'', ''out'', ''html''], [''work'', ''out'', ''md'']}"
  "cwd (snd (snd (main (example_env fetch_abs) (example_args p ''out'') example_state)))
     = [''work'']"
  using sitemap_abs
  by (simp_all add: example_run write_outputs_abs file_write_def driver_quit_def example_env_sel)

lemma run_default_output:
  "fst (main (example_env fetch_ok) (example_args False ''.'') example_state)
     = Some (UnboundLocalError ''output_dir'')"
  using sitemap_example [of fetch_ok, OF fetch_sitemap(1)]
  by (simp add: example_run)

section \<open>A fetch that raises\<close>









section \<open>A page with no content container\<close>

text \<open>
  Claim C2 at a failing input. In the example world where the page of the second article
  has no content container, \<open>extract_article_html\<close> returns the text \<open>None\<close>, which is
  not empty: the run completes, the article is among the results, and its two files are
  written from that text.
\<close>

theorem missing_container_is_written:
  "find_class ''div'' ''available-content'' (example_page ''EMPTY'') = None
   \<and> extract_article_html (example_env fetch_second_empty) (example_page ''EMPTY'') = ''None''
   \<and> fst (main (example_env fetch_second_empty) (example_args False ''out'') example_state)
       = None
   \<and> (''https://n.example/p/b'', []) \<in> set (fst (snd (main (example_env fetch_second_empty)
         (example_args False ''out'') example_state)))
   \<and> read_file (snd (snd (main (example_env fetch_second_empty) (example_args False ''out'')
         example_state))) (Path ''out/html/b.html'') = Some ''None''
   \<and> read_file (snd (snd (main (example_env fetch_second_empty) (example_args False ''out'')
         example_state))) (Path ''out/md/b.md'') = Some ''md None''"
proof -
  let ?s = "snd (snd (main (example_env fetch_second_empty) (example_args False ''out'')
         example_state))"
  have p: "Path ''out/html/b.html'' = PosixPath [] [''out'', ''html'', ''b.html'']"
    "Path ''out/md/b.md'' = PosixPath [] [''out'', ''md'', ''b.md'']"
    by (simp_all add: Path_def splitroot_def)
  have f: "find_class ''div'' ''available-content'' (example_page ''EMPTY'') = None"
    by (simp add: find_class_def example_page_def)
  have r: "resolve ?s (PosixPath [] [''out'', ''html'', ''b.html''])
        = Inr [''work'', ''out'', ''html'', ''b.html'']"
      "resolve ?s (PosixPath [] [''out'', ''md'', ''b.md''])
        = Inr [''work'', ''out'', ''md'', ''b.md'']"
    using run_second_empty(6,7) [of False] by (simp_all add: resolve_out2)
  have rf: "read_file ?s (Path ''out/html/b.html'') = Some ''None''"
    "read_file ?s (Path ''out/md/b.md'') = Some ''md None''"
    using r run_second_empty(3,4) [of False] by (simp_all add: read_file_def p)
  have e: "extract_article_html (example_env fetch_second_empty) (example_page ''EMPTY'') = ''None''"
    using extract_example [of fetch_second_empty "''EMPTY''"] by simp
  have m: "(''https://n.example/p/b'', []) \<in> set (fst (snd (main (example_env fetch_second_empty)
         (example_args False ''out'') example_state)))"
    using run_second_empty(2) [of False] by simp
  from f e run_second_empty(1) [of False] m rf show ?thesis by (intro conjI)
qed

section \<open>The session\<close>

text \<open>
  Claim C4, as stated, fails: in the example world where the sitemap cannot be retrieved,
  a paid run ends with the exception of the retrieval while the browser session, which
  was established before, is still active.
\<close>

theorem session_left_open:
  "paid (example_args True ''out'')
   \<and> fst (main (example_env fetch_no_sitemap) (example_args True ''out'') example_state)
       = Some (RequestException ''refused'')
   \<and> browser (snd (snd (main (example_env fetch_no_sitemap) (example_args True ''out'')
         example_state))) = Active"
proof -
  have a: "paid (example_args True ''out'')" "output_folder (example_args True ''out'') = ''out''"
    by (simp_all add: example_args_def)
  show ?thesis
    by (simp add: main_def Let_def a sitemap_url_example Path_out mkdir_out sitemap_refused
        login_example fetch_no_sitemap_signin print_def)
qed

theorem session_released_iff_completes_witness:
  "paid (example_args True ''out'') \<and> browser example_state = NotStarted
   \<and> fst (main (example_env fetch_second_empty) (example_args True ''out'') example_state)
       = None
   \<and> browser (snd (snd (main (example_env fetch_second_empty) (example_args True ''out'')
         example_state))) = Released"
proof -
  have a: "paid (example_args True ''out'')" by (simp add: example_args_def)
  have b: "browser example_state = NotStarted" by (simp add: example_state_def)
  from session_released_iff_completes [OF a b, of "example_env fetch_second_empty"]
    run_second_empty(1) [of True] a b
  show ?thesis by simp
qed

section \<open>The manifest and the files\<close>

text \<open>
  Claim C5, as stated, fails: a file need not be under the directory of its
  representation. In the example world with the second sitemap, where the \<open>lastmod\<close> of
  the article begins with a slash, the run completes and the article is in the results;
  the path planned for its HTML file is \<open>/abs_a.html\<close>, and that is where the file is,
  in the root directory, not below \<open>/work/out/html\<close>, to which \<open>out/html\<close> leads. The
  files at the end are \<open>urls.txt\<close> and \<open>summary.json\<close> in \<open>/work/out\<close> and the two files of
  the article in the root directory: the directories of the two options are empty.
\<close>

theorem manifest_file_outside_directory:
  "fst (main (example_env fetch_abs) (example_args False ''out'') example_state) = None
   \<and> fst (snd (main (example_env fetch_abs) (example_args False ''out'') example_state))
       = [(''https://n.example/p/a'', ''/absT1'')]
   \<and> make_file_path ''https://n.example/p/a'' ''/absT1''
         (truediv (Path (output_folder (example_args False ''out''))) (option_value HTML)) HTML
       = PosixPath ''/'' [''abs_a.html'']
   \<and> resolve (snd (snd (main (example_env fetch_abs) (example_args False ''out'')
         example_state))) (truediv (Path (output_folder (example_args False ''out'')))
           (option_value HTML))
       = Inr [''work'', ''out'', ''html'']
   \<and> resolve (snd (snd (main (example_env fetch_abs) (example_args False ''out'')
         example_state))) (PosixPath ''/'' [''abs_a.html''])
       = Inr [''abs_a.html'']
   \<and> files (snd (snd (main (example_env fetch_abs) (example_args False ''out'')
         example_state))) [''abs_a.html''] = Some ''<div>a</div>''
   \<and> \<not> prefix [''work'', ''out'', ''html''] [''abs_a.html'']
   \<and> dom (files (snd (snd (main (example_env fetch_abs) (example_args False ''out'')
         example_state))))
       = {[''work'', ''out'', ''urls.txt''], [''abs_a.html''], [''abs_a.md''],
          [''work'', ''out'', ''summary.json'']}"
proof -
  let ?s = "snd (snd (main (example_env fetch_abs) (example_args False ''out'') example_state))"
  have o: "truediv (Path (output_folder (example_args False ''out''))) (option_value HTML)
      = PosixPath [] [''out'', ''html'']"
    by (simp add: example_args_def Path_out paths_out)
  have p: "make_file_path ''https://n.example/p/a'' ''/absT1''
         (truediv (Path (output_folder (example_args False ''out''))) (option_value HTML)) HTML
       = PosixPath ''/'' [''abs_a.html'']"
    by (simp add: planned_abs)
  have r1: "resolve ?s (truediv (Path (output_folder (example_args False ''out'')))
           (option_value HTML)) = Inr [''work'', ''out'', ''html'']"
    unfolding o using run_abs(4,5) [of False] by (simp add: resolve_out)
  have r2: "resolve ?s (PosixPath ''/'' [''abs_a.html'']) = Inr [''abs_a.html'']"
    using run_abs(4) [of False] by (simp add: resolve_root)
  have f1: "files ?s [''abs_a.html''] = Some ''<div>a</div>''"
    using run_abs(3) [of False] by simp
  have f2: "\<not> prefix [''work'', ''out'', ''html''] [''abs_a.html'']"
    by simp
  have f3: "dom (files ?s) = {[''work'', ''out'', ''urls.txt''], [''abs_a.html''], [''abs_a.md''],
          [''work'', ''out'', ''summary.json'']}"
    using run_abs(3) [of False] by auto
  from run_abs(1,2) [of False] p r1 r2 f1 f2 f3 show ?thesis by (intro conjI)
qed

text \<open>
  Claim C5, amended. At the end of every run, however it ends, for every entry of the
  results and for each of the two output options, the path that \<open>make_file_path\<close> plans
  from the entry's URL and \<open>lastmod\<close>, with the option's directory of the output folder as
  base, leads to a file. When the date part of \<open>lastmod\<close> contains no slash, that file is
  in the option's directory: the base path leads to a directory, and the file is the
  entry of that directory with the planned file name.
\<close>

theorem manifest_files_exist:
  "\<forall>(u, l) \<in> set (fst (snd (main e a s0))). \<forall>opt.
     read_file (snd (snd (main e a s0)))
       (make_file_path u l (truediv (Path (output_folder a)) (option_value opt)) opt) \<noteq> None
     \<and> (CHR ''/'' \<notin> set (date_part l) \<longrightarrow>
          (\<exists>b. resolve (snd (snd (main e a s0)))
                 (truediv (Path (output_folder a)) (option_value opt)) = Inr b
             \<and> b \<in> dirs (snd (snd (main e a s0)))
             \<and> files (snd (snd (main e a s0)))
                 (b @ [(if date_part l \<noteq> [] then date_part l @ ''_'' else []) @
                        url_base_name u @ ''.'' @ option_value opt]) \<noteq> None))"
proof -
  let ?P = "\<lambda>s' u l opt.
     read_file s' (make_file_path u l (truediv (Path (output_folder a)) (option_value opt)) opt)
        \<noteq> None
     \<and> (CHR ''/'' \<notin> set (date_part l) \<longrightarrow>
          (\<exists>b. resolve s' (truediv (Path (output_folder a)) (option_value opt)) = Inr b
             \<and> b \<in> dirs s'
             \<and> files s' (b @ [(if date_part l \<noteq> [] then date_part l @ ''_'' else []) @
                        url_base_name u @ ''.'' @ option_value opt]) \<noteq> None))"
  obtain r res s' where run: "main e a s0 = (r, res, s')" by (cases "main e a s0")
  have step: "?P s' u l opt" if mem: "(u, l) \<in> set res" for u l opt
  proof -
    let ?base = "truediv (Path (output_folder a)) (option_value opt)"
    let ?p = "make_file_path u l ?base opt"
    from main_planned [OF run] mem have rf: "read_file s' ?p \<noteq> None"
      unfolding planned_files_exist_def by blast
    then obtain f where f: "resolve s' ?p = Inr f" "files s' f \<noteq> None"
      by (auto simp: read_file_def split: sum.splits)
    have "\<exists>b. resolve s' ?base = Inr b \<and> b \<in> dirs s'
             \<and> files s' (b @ [(if date_part l \<noteq> [] then date_part l @ ''_'' else []) @
                        url_base_name u @ ''.'' @ option_value opt]) \<noteq> None"
      if "CHR ''/'' \<notin> set (date_part l)"
      using make_file_path_in_base [OF f(1) that] f(2) by auto
    with rf show ?thesis by blast
  qed
  have all: "\<forall>(u, l) \<in> set res. \<forall>opt. ?P s' u l opt"
  proof (rule ballI)
    fix x assume x: "x \<in> set res"
    obtain u l where ul: "x = (u, l)" by (cases x)
    from x ul have mem: "(u, l) \<in> set res" by simp
    show "case x of (u, l) \<Rightarrow> \<forall>opt. ?P s' u l opt"
      unfolding ul prod.case
    proof (rule allI)
      fix opt
      show "?P s' u l opt" by (rule step [OF mem])
    qed
  qed
  from run have e: "fst (snd (main e a s0)) = res" "snd (snd (main e a s0)) = s'"
    by simp_all
  show ?thesis unfolding e by (rule all)
qed

theorem manifest_files_exist_witness:
  "(''https://n.example/p/a'', ''2024-03-05T12:00:00Z'')
     \<in> set (fst (snd (main (example_env fetch_second_raises) (example_args False ''out'')
         example_state)))
   \<and> CHR ''/'' \<notin> set (date_part ''2024-03-05T12:00:00Z'')
   \<and> read_file (snd (snd (main (example_env fetch_second_raises) (example_args False ''out'')
         example_state))) (Path ''out/html/2024-03-05_a.html'') \<noteq> None
   \<and> read_file (snd (snd (main (example_env fetch_second_raises) (example_args False ''out'')
         example_state))) (Path ''out/md/2024-03-05_a.md'') \<noteq> None
   \<and> files (snd (snd (main (example_env fetch_second_raises) (example_args False ''out'')
         example_state))) [''work'', ''out'', ''html'', ''2024-03-05_a.html''] \<noteq> None
   \<and> files (snd (snd (main (example_env fetch_second_raises) (example_args False ''out'')
         example_state))) [''work'', ''out'', ''md'', ''2024-03-05_a.md''] \<noteq> None"
proof -
  let ?run = "main (example_env fetch_second_raises) (example_args False ''out'') example_state"
  let ?s = "snd (snd ?run)"
  have mem: "(''https://n.example/p/a'', ''2024-03-05T12:00:00Z'') \<in> set (fst (snd ?run))"
    using run_second_raises(2) [of False] by simp
  have dp: "date_part ''2024-03-05T12:00:00Z'' = ''2024-03-05''"
    by (simp add: date_part_eq)
  then have ns: "CHR ''/'' \<notin> set (date_part ''2024-03-05T12:00:00Z'')" by simp
  have bn: "url_base_name ''https://n.example/p/a'' = ''a''"
    by (simp add: url_base_name_eq spec_last_segment_def)
  have o: "Path (output_folder (example_args False ''out'')) = PosixPath [] [''out'']"
    by (simp add: example_args_def Path_out)
  have p: "Path ''out/html/2024-03-05_a.html'' = PosixPath [] [''out'', ''html'', ''2024-03-05_a.html'']"
    "Path ''out/md/2024-03-05_a.md'' = PosixPath [] [''out'', ''md'', ''2024-03-05_a.md'']"
    by (simp_all add: Path_def splitroot_def)
  have rb: "resolve ?s (PosixPath [] [''out'', ''html'']) = Inr [''work'', ''out'', ''html'']"
    "resolve ?s (PosixPath [] [''out'', ''md'']) = Inr [''work'', ''out'', ''md'']"
    using run_second_raises(4,5) [of False] by (simp_all add: resolve_out)
  have "\<forall>(u, l) \<in> set (fst (snd ?run)). \<forall>opt.
     read_file ?s
       (make_file_path u l (truediv (Path (output_folder (example_args False ''out'')))
          (option_value opt)) opt) \<noteq> None
     \<and> (CHR ''/'' \<notin> set (date_part l) \<longrightarrow>
          (\<exists>b. resolve ?s
                 (truediv (Path (output_folder (example_args False ''out''))) (option_value opt))
                 = Inr b
             \<and> b \<in> dirs ?s
             \<and> files ?s
                 (b @ [(if date_part l \<noteq> [] then date_part l @ ''_'' else []) @
                        url_base_name u @ ''.'' @ option_value opt]) \<noteq> None))"
    by (rule manifest_files_exist)
  from bspec [OF this mem]
  have inst: "read_file ?s
       (make_file_path ''https://n.example/p/a'' ''2024-03-05T12:00:00Z''
          (truediv (Path (output_folder (example_args False ''out''))) (option_value opt)) opt)
        \<noteq> None
     \<and> (CHR ''/'' \<notin> set (date_part ''2024-03-05T12:00:00Z'') \<longrightarrow>
          (\<exists>b. resolve ?s
                 (truediv (Path (output_folder (example_args False ''out''))) (option_value opt))
                 = Inr b
             \<and> b \<in> dirs ?s
             \<and> files ?s
                 (b @ [(if date_part ''2024-03-05T12:00:00Z'' \<noteq> []
                        then date_part ''2024-03-05T12:00:00Z'' @ ''_'' else []) @
                        url_base_name ''https://n.example/p/a'' @ ''.'' @ option_value opt])
                 \<noteq> None))" for opt
    unfolding prod.case by (rule spec)
  have html: "read_file ?s (PosixPath [] [''out'', ''html'', ''2024-03-05_a.html'']) \<noteq> None"
    and fh: "files ?s [''work'', ''out'', ''html'', ''2024-03-05_a.html''] \<noteq> None"
    using inst [of HTML] ns by (auto simp: o dp bn paths_out rb planned_example)
  have md: "read_file ?s (PosixPath [] [''out'', ''md'', ''2024-03-05_a.md'']) \<noteq> None"
    and fm: "files ?s [''work'', ''out'', ''md'', ''2024-03-05_a.md''] \<noteq> None"
    using inst [of MD] ns by (auto simp: o dp bn paths_out rb planned_example)
  from mem ns html md fh fm show ?thesis
    unfolding p by (intro conjI)
qed

section \<open>The theorems with hypotheses, at the example world\<close>

theorem main_default_output_fails_witness:
  "output_folder (example_args False ''.'') = ''.''
   \<and> fst (main (example_env fetch_ok) (example_args False ''.'') example_state)
       = Some (UnboundLocalError ''output_dir'')
   \<and> fst (snd (main (example_env fetch_ok) (example_args False ''.'') example_state)) = []
   \<and> files (snd (snd (main (example_env fetch_ok) (example_args False ''.'') example_state)))
       = Map.empty"
proof -
  have a: "output_folder (example_args False ''.'') = ''.''" by (simp add: example_args_def)
  from main_default_output_fails [OF a, of "example_env fetch_ok" example_state]
    run_default_output a
  show ?thesis by (simp add: example_state_sel)
qed

theorem get_article_urls_and_lastmod_entries_witness:
  "requests_get (example_env fetch_ok) ''https://n.example/sitemap.xml'' 10 = Inr ''sitemap.xml''
   \<and> (\<exists>m. get_article_urls_and_lastmod (example_env fetch_ok)
          ''https://n.example/sitemap.xml'' 10 =
        Inr ([''https://n.example/p/a'', ''https://n.example/p/b'', ''https://n.example/p/c/''], m)
      \<and> dom m = {''https://n.example/p/a'', ''https://n.example/p/b'', ''https://n.example/p/c/''}
      \<and> m ''https://n.example/p/a'' = Some ''2024-03-05T12:00:00Z''
      \<and> m ''https://n.example/p/b'' = Some []
      \<and> m ''https://n.example/p/c/'' = Some ''2024-03-07T09:30:00Z'')"
proof -
  let ?e = "example_env fetch_ok"
  have r: "requests_get ?e ''https://n.example/sitemap.xml'' 10 = Inr ''sitemap.xml''"
    by (simp add: example_env_sel fetch_sitemap)
  have ents: "sitemap_entries (bs_xml ?e ''sitemap.xml'') =
    [(''https://n.example/p/a'', ''2024-03-05T12:00:00Z''),
     (''https://n.example/p/b'', []),
     (''https://n.example/p/c/'', ''2024-03-07T09:30:00Z'')]"
    by (simp add: example_env_sel example_entries)
  from get_article_urls_and_lastmod_entries [OF r] obtain urls m
    where run: "get_article_urls_and_lastmod ?e ''https://n.example/sitemap.xml'' 10
        = Inr (urls, m)"
      and urls: "urls = map fst (sitemap_entries (bs_xml ?e ''sitemap.xml''))"
      and d: "dom m = set urls"
      and di: "distinct urls \<longrightarrow>
        (\<forall>en \<in> set (sitemap_entries (bs_xml ?e ''sitemap.xml'')). m (fst en) = Some (snd en))"
    by blast
  from urls ents
  have u: "urls = [''https://n.example/p/a'', ''https://n.example/p/b'', ''https://n.example/p/c/'']"
    by simp
  then have "distinct urls" by simp
  with di ents
  have "m ''https://n.example/p/a'' = Some ''2024-03-05T12:00:00Z''"
    "m ''https://n.example/p/b'' = Some []"
    "m ''https://n.example/p/c/'' = Some ''2024-03-07T09:30:00Z''"
    by simp_all
  with r run u d show ?thesis by simp
qed

theorem store_sitemap_content_witness:
  "resolve (example_state\<lparr>dirs := {[], [''work''], [''work'', ''out'']}\<rparr>)
       (PosixPath [] [''out'', ''urls.txt'']) = Inr [''work'', ''out'', ''urls.txt'']
   \<and> [''work'', ''out'', ''urls.txt'']
        \<notin> dirs (example_state\<lparr>dirs := {[], [''work''], [''work'', ''out'']}\<rparr>)
   \<and> butlast [''work'', ''out'', ''urls.txt'']
        \<in> dirs (example_state\<lparr>dirs := {[], [''work''], [''work'', ''out'']}\<rparr>)
   \<and> (\<exists>s'. store_sitemap (PosixPath [] [''out'', ''urls.txt''])
          [''https://n.example/p/a'', ''https://n.example/p/b'']
          (example_state\<lparr>dirs := {[], [''work''], [''work'', ''out'']}\<rparr>) = (None, s')
        \<and> read_file s' (PosixPath [] [''out'', ''urls.txt''])
          = Some (''https://n.example/p/a'' @ [CHR 0x0A] @ ''https://n.example/p/b'' @ [CHR 0x0A]))"
proof -
  let ?s = "example_state\<lparr>dirs := {[], [''work''], [''work'', ''out'']}\<rparr>"
  let ?p = "PosixPath [] [''out'', ''urls.txt'']"
  let ?f = "[''work'', ''out'', ''urls.txt'']"
  have h: "resolve ?s ?p = Inr ?f" "?f \<notin> dirs ?s" "butlast ?f \<in> dirs ?s"
    by (simp_all add: resolve_def example_state_sel)
  from store_sitemap_content [OF h, of "[''https://n.example/p/a'', ''https://n.example/p/b'']"]
  obtain s' where "store_sitemap ?p [''https://n.example/p/a'', ''https://n.example/p/b''] ?s
      = (None, s')"
    and "read_file s' ?p = Some (concat (map (\<lambda>u. u @ [CHR 0x0A])
      [''https://n.example/p/a'', ''https://n.example/p/b'']))"
    by blast
  with h show ?thesis by simp
qed

end
